theory Spec2Isabelle
  imports Main
begin

section \<open>JavaScript strings and numbers\<close>

text \<open>
  Strings are lists of code units; the model covers the code units 0..255 (Latin-1),
  which holds every character the trace, bytecode and source-map formats use.
  A JavaScript number is kept as an exact integer, with \<open>None\<close> for \<open>NaN\<close>; this
  agrees with the program for every magnitude up to \<open>2 ^ 53\<close>.
\<close>

definition startsWith :: "string \<Rightarrow> string \<Rightarrow> bool" where
  "startsWith s p = (take (length p) s = p)"

fun includesStr :: "string \<Rightarrow> string \<Rightarrow> bool" where
  "includesStr [] p = (p = [])"
| "includesStr (x # xs) p = (startsWith (x # xs) p \<or> includesStr xs p)"

definition strip0x :: "string \<Rightarrow> string" where
  \<comment> \<open>\<open>s.startsWith('0x') ? s.slice(2) : s\<close>\<close>
  "strip0x s = (if startsWith s ''0x'' then drop 2 s else s)"

definition slice :: "string \<Rightarrow> nat \<Rightarrow> nat \<Rightarrow> string" where
  \<comment> \<open>\<open>s.slice(a, b)\<close> for non-negative \<open>a\<close>, \<open>b\<close>\<close>
  "slice s a b = take (b - a) (drop a s)"

definition padStart :: "string \<Rightarrow> nat \<Rightarrow> char \<Rightarrow> string" where
  "padStart s n c = replicate (n - length s) c @ s"

fun split :: "string \<Rightarrow> char \<Rightarrow> string list" where
  "split [] c = [[]]"
| "split (x # xs) c =
     (if x = c then [] # split xs c
      else (case split xs c of [] \<Rightarrow> [[x]] | y # ys \<Rightarrow> (x # y) # ys))"

definition isWhiteSpace :: "char \<Rightarrow> bool" where
  \<comment> \<open>WhiteSpace and LineTerminator below 256: TAB, LF, VT, FF, CR, SP, NBSP\<close>
  "isWhiteSpace c = (of_char c \<in> {9, 10, 11, 12, 13, 32, 160 :: nat})"

definition trim :: "string \<Rightarrow> string" where
  "trim s = rev (dropWhile isWhiteSpace (rev (dropWhile isWhiteSpace s)))"

definition digitVal :: "char \<Rightarrow> nat option" where
  "digitVal c =
     (let n = (of_char c :: nat) in
      if 48 \<le> n \<and> n \<le> 57 then Some (n - 48)
      else if 97 \<le> n \<and> n \<le> 122 then Some (n - 87)
      else if 65 \<le> n \<and> n \<le> 90 then Some (n - 55)
      else None)"

definition isRadixDigit :: "nat \<Rightarrow> char \<Rightarrow> bool" where
  "isRadixDigit r c = (case digitVal c of None \<Rightarrow> False | Some d \<Rightarrow> d < r)"

definition digitsToNat :: "nat \<Rightarrow> string \<Rightarrow> nat" where
  "digitsToNat r ds =
     foldl (\<lambda>acc c. acc * r + (case digitVal c of None \<Rightarrow> 0 | Some d \<Rightarrow> d)) 0 ds"

definition parseInt :: "string \<Rightarrow> nat \<Rightarrow> int option" where
  \<comment> \<open>\<open>parseInt(str, radix)\<close>; radix 0 stands for an omitted radix. \<open>None\<close> is \<open>NaN\<close>.\<close>
  "parseInt str radix =
     (let s0 = dropWhile isWhiteSpace str;
          neg = (case s0 of [] \<Rightarrow> False | c # _ \<Rightarrow> c = CHR ''-'');
          s1 = (case s0 of [] \<Rightarrow> []
                | c # cs \<Rightarrow> if c = CHR ''+'' \<or> c = CHR ''-'' then cs else s0)
      in if radix \<noteq> 0 \<and> (radix < 2 \<or> 36 < radix) then None
         else
           let hasPrefix = ((radix = 0 \<or> radix = 16)
                             \<and> (startsWith s1 ''0x'' \<or> startsWith s1 ''0X''));
               s2 = (if hasPrefix then drop 2 s1 else s1);
               r = (if hasPrefix then 16 else if radix = 0 then 10 else radix);
               z = takeWhile (isRadixDigit r) s2
           in if z = [] then None
              else Some ((if neg then - 1 else 1) * int (digitsToNat r z)))"

section \<open>Bytecode disassembly: \<open>buildPCToInstructionMap\<close>\<close>

definition pushDataLength :: "int option \<Rightarrow> nat" where
  \<comment> \<open>operand bytes of an opcode: \<open>opcode - 0x5f\<close> for 0x60..0x7f, else none;
      every comparison with \<open>NaN\<close> is false\<close>
  "pushDataLength opcode =
     (case opcode of None \<Rightarrow> 0
      | Some v \<Rightarrow> if 0x60 \<le> v \<and> v \<le> 0x7f then nat (v - 0x5f) else 0)"

definition opcodeAt :: "string \<Rightarrow> nat \<Rightarrow> int option" where
  "opcodeAt code pc = parseInt (slice code (pc * 2) (pc * 2 + 2)) 16"

function pcLoop :: "string \<Rightarrow> nat \<Rightarrow> nat \<Rightarrow> (nat \<times> nat) list" where
  "pcLoop code pc instructionIndex =
     (if 2 * pc < length code
      then (pc, instructionIndex)
             # pcLoop code (pc + 1 + pushDataLength (opcodeAt code pc)) (instructionIndex + 1)
      else [])"
  by pat_completeness auto
termination
  by (relation "measure (\<lambda>(code, pc, i). length code - 2 * pc)") auto

declare pcLoop.simps [simp del]

definition buildPCToInstructionMap :: "string \<Rightarrow> (nat \<times> nat) list" where
  \<comment> \<open>the entries of the resulting \<open>Map\<close>, in insertion order (keys never repeat)\<close>
  "buildPCToInstructionMap bytecode = (let code = strip0x bytecode in pcLoop code 0 0)"

section \<open>Source-map decompression: \<open>buildSourceMapCache\<close>\<close>

record SourceMapEntry =
  start :: "int option"
  entryLength :: "int option"
  fileIndex :: "int option"

definition part :: "string list \<Rightarrow> nat \<Rightarrow> string option" where
  \<comment> \<open>\<open>parts[k]\<close>: \<open>None\<close> is \<open>undefined\<close>\<close>
  "part parts k = (if k < length parts then Some (parts ! k) else None)"

definition numField :: "int option \<Rightarrow> string option \<Rightarrow> int option" where
  \<comment> \<open>\<open>if (p !== undefined && p !== '') prev = parseInt(p)\<close>\<close>
  "numField prev p =
     (case p of None \<Rightarrow> prev | Some f \<Rightarrow> if f \<noteq> [] then parseInt f 0 else prev)"

definition jumpField :: "string \<Rightarrow> string option \<Rightarrow> string" where
  "jumpField prev p = (case p of None \<Rightarrow> prev | Some f \<Rightarrow> if f \<noteq> [] then f else prev)"

fun sourceMapLoop ::
  "int option \<Rightarrow> int option \<Rightarrow> int option \<Rightarrow> string \<Rightarrow> string list \<Rightarrow> SourceMapEntry list"
where
  "sourceMapLoop lastStart lastLength lastFileIndex lastJump [] = []"
| "sourceMapLoop lastStart lastLength lastFileIndex lastJump (entry # entries) =
     (if entry = []
      then \<lparr>start = lastStart, entryLength = lastLength, fileIndex = lastFileIndex\<rparr>
             # sourceMapLoop lastStart lastLength lastFileIndex lastJump entries
      else
        let parts = split entry CHR '':'';
            lastStart' = numField lastStart (part parts 0);
            lastLength' = numField lastLength (part parts 1);
            lastFileIndex' = numField lastFileIndex (part parts 2);
            lastJump' = jumpField lastJump (part parts 3)
        in \<lparr>start = lastStart', entryLength = lastLength', fileIndex = lastFileIndex'\<rparr>
             # sourceMapLoop lastStart' lastLength' lastFileIndex' lastJump' entries)"

definition buildSourceMapCache :: "string \<Rightarrow> SourceMapEntry list" where
  \<comment> \<open>The cache maps the position \<open>k\<close> of an entry to the \<open>k\<close>-th element of the list.
      Nothing inside the source's \<open>try\<close> block throws: \<open>split\<close>, \<open>parseInt\<close> and
      \<open>Map.set\<close> are total.\<close>
  "buildSourceMapCache sourceMap =
     (if sourceMap = [] then []
      else sourceMapLoop (Some 0) (Some 0) (Some 0) ''-'' (split sourceMap CHR '';''))"

definition cacheGet :: "SourceMapEntry list \<Rightarrow> int \<Rightarrow> SourceMapEntry option" where
  \<comment> \<open>\<open>sourceMapCache.get(i)\<close>\<close>
  "cacheGet cache i = (if 0 \<le> i \<and> i < int (length cache) then Some (cache ! nat i) else None)"

section \<open>Resolving a program counter: \<open>getSourceLocation\<close>\<close>

record SourceLocation =
  line :: nat
  column :: int
  snippet :: string

record StorageLayoutParser =
  sourceCode :: string
  sourceMap :: string
  bytecode :: string
  pcToInstructionIndex :: "(nat \<times> nat) list"

definition numGt :: "int \<Rightarrow> int option \<Rightarrow> bool" where
  \<comment> \<open>\<open>a > b\<close> where \<open>b\<close> may be \<open>NaN\<close>\<close>
  "numGt a b = (case b of None \<Rightarrow> False | Some v \<Rightarrow> a > v)"

fun lineScan :: "string list \<Rightarrow> int option \<Rightarrow> int \<Rightarrow> nat \<Rightarrow> nat \<times> int" where
  \<comment> \<open>the loop over \<open>lines\<close>: the result is (lineNumber, columnNumber), both 1 when
      the loop never breaks\<close>
  "lineScan [] st currentOffset j = (1, 1)"
| "lineScan (l # ls) st currentOffset j =
     (let lineLength = int (length l) + 1 in
      if numGt (currentOffset + lineLength) st
      then (j + 1, (case st of None \<Rightarrow> 1 | Some v \<Rightarrow> v - currentOffset + 1))
      else lineScan ls st (currentOffset + lineLength) (j + 1))"

definition snippetAt :: "string list \<Rightarrow> nat \<Rightarrow> string" where
  \<comment> \<open>\<open>lines[lineNumber - 1]?.trim() || ''\<close>\<close>
  "snippetAt lines lineNumber =
     (if lineNumber - 1 < length lines then trim (lines ! (lineNumber - 1)) else [])"

definition locate :: "string \<Rightarrow> int option \<Rightarrow> SourceLocation" where
  \<comment> \<open>byte offset to line, column and snippet\<close>
  "locate src st =
     (let lines = split src CHR 0x0A;
          (lineNumber, columnNumber) = lineScan lines st 0 0
      in \<lparr>line = lineNumber, column = columnNumber, snippet = snippetAt lines lineNumber\<rparr>)"

definition locateNearby :: "string \<Rightarrow> int option \<Rightarrow> SourceLocation" where
  \<comment> \<open>the copy of the scan in the neighbour fallback: the column is always 1\<close>
  "locateNearby src st =
     (let lines = split src CHR 0x0A;
          (lineNumber, columnNumber) = lineScan lines st 0 0
      in \<lparr>line = lineNumber, column = 1, snippet = snippetAt lines lineNumber\<rparr>)"

fun searchBackwards ::
  "SourceMapEntry list \<Rightarrow> string \<Rightarrow> int \<Rightarrow> nat list \<Rightarrow> SourceLocation option"
where
  "searchBackwards cache src instructionIndex [] = None"
| "searchBackwards cache src instructionIndex (offset # offsets) =
     (let prevIndex = instructionIndex - int offset in
      if prevIndex < 0 then None
      else (case cacheGet cache prevIndex of
              None \<Rightarrow> searchBackwards cache src instructionIndex offsets
            | Some prevPosition \<Rightarrow>
                if fileIndex prevPosition = Some 0 then Some (locate src (start prevPosition))
                else searchBackwards cache src instructionIndex offsets))"

fun searchNearby ::
  "SourceMapEntry list \<Rightarrow> string \<Rightarrow> int \<Rightarrow> int list \<Rightarrow> SourceLocation option"
where
  "searchNearby cache src instructionIndex [] = None"
| "searchNearby cache src instructionIndex (offset # offsets) =
     (case cacheGet cache (instructionIndex + offset) of
        None \<Rightarrow> searchNearby cache src instructionIndex offsets
      | Some nearbyPos \<Rightarrow> Some (locateNearby src (start nearbyPos)))"

definition getSourceLocation :: "StorageLayoutParser \<Rightarrow> nat \<Rightarrow> SourceLocation option" where
  "getSourceLocation this pc =
     (if sourceMap this = [] \<or> sourceCode this = [] then None
      else (case map_of (pcToInstructionIndex this) pc of
              None \<Rightarrow> None
            | Some instructionIndex \<Rightarrow>
                let sourceMapCache = buildSourceMapCache (sourceMap this) in
                (case cacheGet sourceMapCache (int instructionIndex) of
                   Some position \<Rightarrow>
                     if fileIndex position \<noteq> Some 0
                     then searchBackwards sourceMapCache (sourceCode this)
                            (int instructionIndex) [1 ..< 21]
                     else Some (locate (sourceCode this) (start position))
                 | None \<Rightarrow>
                     searchNearby sourceMapCache (sourceCode this)
                       (int instructionIndex) [- 5 .. 5])))"

section \<open>BigInt and number rendering\<close>

datatype js_error = SyntaxError | TypeError

definition allDigits :: "nat \<Rightarrow> string \<Rightarrow> bool" where
  "allDigits r ds = (ds \<noteq> [] \<and> list_all (isRadixDigit r) ds)"

definition BigInt :: "string \<Rightarrow> js_error + int" where
  \<comment> \<open>\<open>BigInt(str)\<close>: surrounding white space is dropped, the empty string is 0, a
      \<open>0x\<close>, \<open>0o\<close> or \<open>0b\<close> literal carries no sign, a decimal literal may; anything
      else throws\<close>
  "BigInt str =
     (let s = trim str in
      if s = [] then Inr 0
      else if startsWith s ''0x'' \<or> startsWith s ''0X''
      then (if allDigits 16 (drop 2 s) then Inr (int (digitsToNat 16 (drop 2 s)))
            else Inl SyntaxError)
      else if startsWith s ''0o'' \<or> startsWith s ''0O''
      then (if allDigits 8 (drop 2 s) then Inr (int (digitsToNat 8 (drop 2 s)))
            else Inl SyntaxError)
      else if startsWith s ''0b'' \<or> startsWith s ''0B''
      then (if allDigits 2 (drop 2 s) then Inr (int (digitsToNat 2 (drop 2 s)))
            else Inl SyntaxError)
      else (case s of
              [] \<Rightarrow> Inr 0
            | c # cs \<Rightarrow>
                if c = CHR ''-''
                then (if allDigits 10 cs then Inr (- int (digitsToNat 10 cs))
                      else Inl SyntaxError)
                else if c = CHR ''+''
                then (if allDigits 10 cs then Inr (int (digitsToNat 10 cs))
                      else Inl SyntaxError)
                else (if allDigits 10 s then Inr (int (digitsToNat 10 s))
                      else Inl SyntaxError)))"

fun showNat :: "nat \<Rightarrow> string" where
  "showNat n =
     (if n < 10 then [char_of (48 + n)]
      else showNat (n div 10) @ [char_of (48 + n mod 10)])"

declare showNat.simps [simp del]

definition showInt :: "int \<Rightarrow> string" where
  \<comment> \<open>\<open>toString()\<close> of an integer\<close>
  "showInt v = (if v < 0 then CHR ''-'' # showNat (nat (- v)) else showNat (nat v))"

definition showNumber :: "int option \<Rightarrow> string" where
  "showNumber v = (case v of None \<Rightarrow> ''NaN'' | Some n \<Rightarrow> showInt n)"

definition fromCharCode :: "int option \<Rightarrow> char" where
  \<comment> \<open>\<open>String.fromCharCode\<close>: \<open>NaN\<close> is code unit 0; the code unit is the argument
      modulo \<open>2 ^ 16\<close>, and \<open>char_of\<close> keeps its low byte (equal for 0..255)\<close>
  "fromCharCode v = (case v of None \<Rightarrow> char_of (0::nat) | Some n \<Rightarrow> char_of (nat (n mod 65536)))"

section \<open>Decoding a storage value: \<open>decodeValue\<close>\<close>

fun decodeChars :: "string \<Rightarrow> string" where
  \<comment> \<open>the loop \<open>for (i = 0; i < stringHex.length; i += 2)\<close>\<close>
  "decodeChars [] = []"
| "decodeChars [a] = [fromCharCode (parseInt [a] 16)]"
| "decodeChars (a # b # rest) = fromCharCode (parseInt [a, b] 16) # decodeChars rest"

definition decimalOrRaw :: "string \<Rightarrow> string \<Rightarrow> string" where
  \<comment> \<open>\<open>BigInt('0x' + hex).toString()\<close>, with the \<open>catch\<close> that returns \<open>hexValue\<close>\<close>
  "decimalOrRaw hexValue hex =
     (case BigInt (''0x'' @ hex) of Inl e \<Rightarrow> hexValue | Inr v \<Rightarrow> showInt v)"

definition decodeValue :: "string \<Rightarrow> string \<Rightarrow> string" where
  "decodeValue hexValue type =
     (let hex = strip0x hexValue in
      if includesStr type ''string'' then
        (if hex = replicate 64 CHR ''0'' then [CHR 0x22, CHR 0x22]
         else
           (case parseInt (slice hex 62 64) 16 of
              None \<Rightarrow> ''string (long)''
            | Some lastByte \<Rightarrow>
                if lastByte mod 2 = 0 \<and> 0 < lastByte div 2 \<and> lastByte div 2 \<le> 31
                then [CHR 0x22] @ decodeChars (slice hex 0 (nat (lastByte div 2) * 2))
                       @ [CHR 0x22]
                else ''string (long)''))
      else if includesStr type ''address'' then ''0x'' @ slice hex 24 64
      else if includesStr type ''bool''
      then (if hex = replicate 64 CHR ''0'' then ''false'' else ''true'')
      else if includesStr type ''uint'' \<or> includesStr type ''int''
      then decimalOrRaw hexValue hex
      else if includesStr type ''bytes'' then ''0x'' @ hex
      else decimalOrRaw hexValue hex)"

section \<open>Enclosing function: \<open>getFunctionContext\<close>\<close>

record FunctionContext =
  functionName :: string
  startLine :: nat
  endLine :: nat
  code :: string
  revertLine :: int

definition isWordChar :: "char \<Rightarrow> bool" where
  \<comment> \<open>the regular expression class \<open>\w\<close>\<close>
  "isWordChar c =
     (let n = (of_char c :: nat) in
      (48 \<le> n \<and> n \<le> 57) \<or> (65 \<le> n \<and> n \<le> 90) \<or> (97 \<le> n \<and> n \<le> 122) \<or> n = 95)"

fun matchFunction :: "string \<Rightarrow> string option" where
  \<comment> \<open>\<open>line.match(/function\s+(\w+)/)\<close>: the first capture group of the leftmost match\<close>
  "matchFunction [] = None"
| "matchFunction (c # cs) =
     (if startsWith (c # cs) ''function''
         \<and> takeWhile isWhiteSpace (drop 8 (c # cs)) \<noteq> []
         \<and> takeWhile isWordChar (dropWhile isWhiteSpace (drop 8 (c # cs))) \<noteq> []
      then Some (takeWhile isWordChar (dropWhile isWhiteSpace (drop 8 (c # cs))))
      else matchFunction cs)"

fun scanBackward :: "string list \<Rightarrow> nat \<Rightarrow> (string \<times> nat) option" where
  \<comment> \<open>the loop \<open>for (i = lineNumber - 1; i >= 0; i--)\<close>, entered with \<open>i + 1\<close>; the
      result is (functionName, functionStartLine)\<close>
  "scanBackward lines 0 = None"
| "scanBackward lines (Suc i) =
     (let l = (if i < length lines then trim (lines ! i) else []) in
      if includesStr l ''function ''
      then (case matchFunction l of
              None \<Rightarrow> scanBackward lines i
            | Some name \<Rightarrow> Some (name, i + 1))
      else scanBackward lines i)"

fun scanChars :: "string \<Rightarrow> int \<Rightarrow> bool \<Rightarrow> int \<times> bool" where
  \<comment> \<open>the loop over the characters of one line: the brace depth after it, and whether
      the end of the function was found on it\<close>
  "scanChars [] braceDepth inFunction = (braceDepth, False)"
| "scanChars (c # cs) braceDepth inFunction =
     (let d1 = (if c = CHR ''{'' then braceDepth + 1 else braceDepth);
          d2 = (if c = CHR ''}'' then d1 - 1 else d1)
      in if d2 = 0 \<and> inFunction then (d2, True) else scanChars cs d2 inFunction)"

fun scanForward :: "string list \<Rightarrow> nat \<Rightarrow> int \<Rightarrow> bool \<Rightarrow> nat option" where
  \<comment> \<open>the loop over the lines from the start line, \<open>i\<close> the index of the first one;
      \<open>None\<close> when \<open>functionEndLine\<close> is still -1 at the end\<close>
  "scanForward [] i braceDepth inFunction = None"
| "scanForward (l # ls) i braceDepth inFunction =
     (case scanChars l braceDepth inFunction of
        (d, found) \<Rightarrow>
          if found then Some (i + 1)
          else scanForward ls (i + 1) d (inFunction \<or> d > 0))"

fun join :: "string list \<Rightarrow> string \<Rightarrow> string" where
  "join [] sep = []"
| "join [x] sep = x"
| "join (x # y # ys) sep = x @ sep @ join (y # ys) sep"

definition getFunctionContext :: "string \<Rightarrow> int \<Rightarrow> FunctionContext option" where
  \<comment> \<open>the first argument is the field \<open>sourceCode\<close>\<close>
  "getFunctionContext src lineNumber =
     (if src = [] then None
      else
        let lines = split src CHR 0x0A in
        (case scanBackward lines (nat lineNumber) of
           None \<Rightarrow> None
         | Some (name, functionStartLine) \<Rightarrow>
             let functionEndLine =
                   (case scanForward (drop (functionStartLine - 1) lines)
                           (functionStartLine - 1) 0 False of
                      None \<Rightarrow> length lines
                    | Some e \<Rightarrow> e)
             in Some \<lparr>functionName = name,
                      startLine = functionStartLine,
                      endLine = functionEndLine,
                      code = join (take (functionEndLine - (functionStartLine - 1))
                                     (drop (functionStartLine - 1) lines)) [CHR 0x0A],
                      revertLine = lineNumber\<rparr>))"

section \<open>Trace normalisation: \<open>parseTrace\<close>\<close>

record StructLog =
  log_pc :: int
  log_op :: string
  log_gas :: int
  log_gasCost :: "int option"
  log_stack :: "string list option"
  log_memory :: "string list option"
  log_depth :: "int option"

record ExecutionTrace =
  step :: nat
  pc :: int
  opcode :: string
  gas :: int
  gasCost :: int
  stack :: "string list"
  memory :: string
  storage :: "(string \<times> string) option"
  depth :: int

text \<open>
  The fields of \<open>StructLog\<close> are the properties the source reads from a raw record
  (\<open>log.pc\<close>, \<open>log.op\<close>, ...); \<open>None\<close> is an absent property. The field \<open>storage\<close>
  of a step holds the pair (key, value).
\<close>

definition padHex :: "string \<Rightarrow> nat \<Rightarrow> string" where
  "padHex hex n =
     (let clean = strip0x hex in ''0x'' @ padStart clean n CHR ''0'')"

definition orZero :: "int option \<Rightarrow> int" where
  \<comment> \<open>\<open>x || 0\<close>\<close>
  "orZero x = (case x of None \<Rightarrow> 0 | Some v \<Rightarrow> v)"

definition sstoreOf :: "StructLog \<Rightarrow> (string \<times> string) option" where
  \<comment> \<open>the storage write captured for an \<open>SSTORE\<close> with at least two stack entries\<close>
  "sstoreOf log =
     (case log_stack log of
        None \<Rightarrow> None
      | Some st \<Rightarrow>
          if log_op log = ''SSTORE'' \<and> 2 \<le> length st
          then Some (padHex (st ! (length st - 1)) 64, padHex (st ! (length st - 2)) 64)
          else None)"

fun parseLoop :: "StructLog list \<Rightarrow> nat \<Rightarrow> int \<Rightarrow> ExecutionTrace list" where
  "parseLoop [] i lastGas = []"
| "parseLoop (log # logs) i lastGas =
     \<lparr>step = i,
      pc = log_pc log,
      opcode = log_op log,
      gas = log_gas log,
      gasCost = (if lastGas > 0 then lastGas - log_gas log else orZero (log_gasCost log)),
      stack = (case log_stack log of None \<Rightarrow> [] | Some st \<Rightarrow> st),
      memory = (case log_memory log of None \<Rightarrow> ''0x'' | Some m \<Rightarrow> ''0x'' @ concat m),
      storage = sstoreOf log,
      depth = orZero (log_depth log)\<rparr>
       # parseLoop logs (i + 1) (log_gas log)"

definition parseTrace :: "StructLog list \<Rightarrow> ExecutionTrace list" where
  \<comment> \<open>the argument is \<open>traceResult.structLogs || []\<close>\<close>
  "parseTrace structLogs = parseLoop structLogs 0 0"

section \<open>Storage changes: \<open>extractStorageChanges\<close>\<close>

record StorageChange =
  slot :: string
  slotNumber :: "int option"
  oldValue :: string
  newValue :: string
  oldValueDecimal :: string
  newValueDecimal :: string
  stepIndex :: nat

text \<open>
  \<open>stepIndex\<close> is the property \<open>step\<close> of a storage change. \<open>slotNumber\<close> is
  \<open>parseInt(slot, 16)\<close>, a double in the program: beyond \<open>2 ^ 53\<close> the program rounds
  it, the model does not, and nothing below reads it.
\<close>

definition recordRead ::
  "ExecutionTrace list \<Rightarrow> (string \<rightharpoonup> string) \<Rightarrow> nat \<Rightarrow> (string \<rightharpoonup> string)"
where
  \<comment> \<open>the body of the first \<open>forEach\<close>, at index \<open>index\<close>\<close>
  "recordRead traces storageReads index =
     (let t = traces ! index in
      if opcode t = ''SLOAD'' \<and> 1 \<le> length (stack t)
      then
        (let slotValue = stack t ! (length (stack t) - 1) in
         if slotValue = [] then storageReads
         else if index + 1 < length traces \<and> 0 < length (stack (traces ! (index + 1)))
         then
           (let nextTrace = traces ! (index + 1);
                loadedValue = stack nextTrace ! (length (stack nextTrace) - 1)
            in if loadedValue \<noteq> [] then storageReads(padHex slotValue 64 \<mapsto> loadedValue)
               else storageReads)
         else storageReads)
      else storageReads)"

definition storageReadsOf :: "ExecutionTrace list \<Rightarrow> (string \<rightharpoonup> string)" where
  "storageReadsOf traces = foldl (recordRead traces) Map.empty [0 ..< length traces]"

definition zeroWord :: string where
  "zeroWord = ''0x'' @ replicate 64 CHR ''0''"

definition changeOf :: "(string \<rightharpoonup> string) \<Rightarrow> ExecutionTrace \<Rightarrow> js_error + StorageChange" where
  \<comment> \<open>the body of \<open>map\<close>; \<open>BigInt\<close> may throw. The steps it is applied to have passed
      the filter, so the first branch (\<open>t.storage\<close> undefined) is never taken.\<close>
  "changeOf storageReads t =
     (case storage t of
        None \<Rightarrow> Inl TypeError
      | Some (k, v) \<Rightarrow>
          let old = (case storageReads k of None \<Rightarrow> zeroWord | Some w \<Rightarrow> w) in
          (case BigInt old of
             Inl e \<Rightarrow> Inl e
           | Inr oldValueBigInt \<Rightarrow>
               (case BigInt v of
                  Inl e \<Rightarrow> Inl e
                | Inr newValueBigInt \<Rightarrow>
                    Inr \<lparr>slot = k,
                         slotNumber = parseInt k 16,
                         oldValue = old,
                         newValue = v,
                         oldValueDecimal = showInt oldValueBigInt,
                         newValueDecimal = showInt newValueBigInt,
                         stepIndex = step t\<rparr>)))"

fun mapChanges ::
  "(string \<rightharpoonup> string) \<Rightarrow> ExecutionTrace list \<Rightarrow> js_error + StorageChange list"
where
  \<comment> \<open>\<open>map\<close> over the filtered steps, in order; the first throw ends it\<close>
  "mapChanges storageReads [] = Inr []"
| "mapChanges storageReads (t # ts) =
     (case changeOf storageReads t of
        Inl e \<Rightarrow> Inl e
      | Inr c \<Rightarrow>
          (case mapChanges storageReads ts of
             Inl e \<Rightarrow> Inl e
           | Inr cs \<Rightarrow> Inr (c # cs)))"

definition extractStorageChanges :: "ExecutionTrace list \<Rightarrow> js_error + StorageChange list" where
  "extractStorageChanges traces =
     mapChanges (storageReadsOf traces) (filter (\<lambda>t. storage t \<noteq> None) traces)"

section \<open>Revert reasons: the decoding in \<open>executeWithTrace\<close>\<close>

definition panicReasons :: "(int \<times> string) list" where
  "panicReasons =
     [(0x01, ''Assertion failed''),
      (0x11, ''Arithmetic overflow/underflow (unchecked)''),
      (0x12, ''Division or modulo by zero''),
      (0x21, ''Invalid enum value''),
      (0x22, ''Invalid storage byte array''),
      (0x31, ''Pop on empty array''),
      (0x32, ''Array index out of bounds''),
      (0x41, ''Out of memory''),
      (0x51, ''Invalid internal function'')]"

definition panicReason :: "int option \<Rightarrow> string" where
  \<comment> \<open>\<open>panicReasons[panicCode] || 'Unknown panic'\<close>\<close>
  "panicReason panicCode =
     (case panicCode of
        None \<Rightarrow> ''Unknown panic''
      | Some c \<Rightarrow> (case map_of panicReasons c of None \<Rightarrow> ''Unknown panic'' | Some r \<Rightarrow> r))"

definition errorMessage ::
  "(string \<Rightarrow> string option) \<Rightarrow> int \<Rightarrow> string option \<Rightarrow> string option \<Rightarrow> string"
where
  \<comment> \<open>\<open>errorMessage\<close> as computed from \<open>receipt.status\<close>, \<open>traceResult.revertReason\<close>
      and \<open>traceResult.returnValue\<close>. The first argument is the library's
      \<open>AbiCoder.decode(['string'], data)\<close>, with \<open>None\<close> when it throws.\<close>
  "errorMessage abiDecode status revertReason returnValue =
     (let fallback = (case revertReason of
                        None \<Rightarrow> ''Transaction reverted''
                      | Some r \<Rightarrow> if r = [] then ''Transaction reverted'' else r)
      in if status = 0 \<and> returnValue \<noteq> None \<and> returnValue \<noteq> Some []
         then
           (let returnData = (case returnValue of None \<Rightarrow> [] | Some d \<Rightarrow> d) in
            if startsWith returnData ''4e487b71''
            then
              (let panicCode = parseInt (drop 8 returnData) 16
               in ''Panic('' @ showNumber panicCode @ ''): '' @ panicReason panicCode)
            else if startsWith returnData ''08c379a0''
            then (case abiDecode (''0x'' @ drop 8 returnData) of
                    None \<Rightarrow> fallback
                  | Some decoded \<Rightarrow> ''Error: '' @ decoded)
            else fallback)
         else fallback)"

section \<open>Vocabulary of the properties\<close>

definition unparseable :: "string \<Rightarrow> bool" where
  \<comment> \<open>a source-map entry with a non-empty field among start, length and file index
      that \<open>parseInt\<close> does not read as a number\<close>
  "unparseable entry =
     list_ex (\<lambda>j. case part (split entry CHR '':'') j of
                     None \<Rightarrow> False
                   | Some f \<Rightarrow> f \<noteq> [] \<and> parseInt f 0 = None) [0, 1, 2]"

definition isHexWord :: "string \<Rightarrow> bool" where
  \<comment> \<open>a stack word as the tracer prints it: \<open>0x\<close> and at least one hexadecimal digit\<close>
  "isHexWord x = (startsWith x ''0x'' \<and> allDigits 16 (drop 2 x))"

definition hexLogs :: "StructLog list \<Rightarrow> bool" where
  \<comment> \<open>every stack entry of every raw record is a hexadecimal word\<close>
  "hexLogs logs =
     list_all (\<lambda>l. case log_stack l of None \<Rightarrow> True | Some st \<Rightarrow> list_all isHexWord st) logs"

definition sloadAt :: "ExecutionTrace list \<Rightarrow> nat \<Rightarrow> string \<Rightarrow> string \<Rightarrow> bool" where
  \<comment> \<open>step \<open>i\<close> is an \<open>SLOAD\<close> of the slot \<open>s\<close> (the padded top of its stack) and the
      loaded value \<open>v\<close> is the top of the stack of step \<open>i + 1\<close>\<close>
  "sloadAt traces i s v =
     (i + 1 < length traces
      \<and> opcode (traces ! i) = ''SLOAD''
      \<and> stack (traces ! i) \<noteq> []
      \<and> last (stack (traces ! i)) \<noteq> []
      \<and> padHex (last (stack (traces ! i))) 64 = s
      \<and> stack (traces ! (i + 1)) \<noteq> []
      \<and> last (stack (traces ! (i + 1))) = v
      \<and> v \<noteq> [])"

definition badInputData :: string where
  \<comment> \<open>the ABI encoding of the single string \<open>bad input\<close>: the offset 0x20, the length
      9, and the nine bytes padded to 32\<close>
  "badInputData =
     replicate 62 CHR ''0'' @ ''20'' @ replicate 62 CHR ''0'' @ ''09''
       @ ''62616420696e707574'' @ replicate 46 CHR ''0''"

definition wordOf :: "string \<Rightarrow> string" where
  \<comment> \<open>the 32-byte word that ends in the given digits\<close>
  "wordOf ds = ''0x'' @ replicate (64 - length ds) CHR ''0'' @ ds"

definition rawLog :: "int \<Rightarrow> string \<Rightarrow> int \<Rightarrow> string list \<Rightarrow> StructLog" where
  "rawLog p opn g st =
     \<lparr>log_pc = p, log_op = opn, log_gas = g, log_gasCost = None,
      log_stack = Some st, log_memory = None, log_depth = Some 1\<rparr>"

definition exampleLogs :: "StructLog list" where
  \<comment> \<open>step 4 loads slot 1, step 5 has the loaded 7 on top, step 9 stores 9 to slot 1\<close>
  "exampleLogs =
     [rawLog 0 ''PUSH1'' 1000 [],
      rawLog 2 ''PUSH1'' 997 [''0x80''],
      rawLog 4 ''MSTORE'' 994 [''0x80'', ''0x40''],
      rawLog 5 ''PUSH1'' 982 [],
      rawLog 7 ''SLOAD'' 979 [wordOf ''01''],
      rawLog 8 ''PUSH1'' 879 [wordOf ''07''],
      rawLog 10 ''ADD'' 876 [wordOf ''07'', ''0x2''],
      rawLog 11 ''PUSH1'' 873 [wordOf ''09''],
      rawLog 13 ''JUMPDEST'' 870 [wordOf ''09'', wordOf ''01''],
      rawLog 14 ''SSTORE'' 869 [wordOf ''09'', wordOf ''01''],
      rawLog 15 ''STOP'' 769 []]"

definition rereadLogs :: "StructLog list" where
  \<comment> \<open>slot 1 is loaded (7), written (9) and loaded again (9)\<close>
  "rereadLogs =
     [rawLog 0 ''SLOAD'' 1000 [wordOf ''01''],
      rawLog 1 ''PUSH1'' 900 [wordOf ''07''],
      rawLog 3 ''SSTORE'' 897 [wordOf ''09'', wordOf ''01''],
      rawLog 4 ''SLOAD'' 797 [wordOf ''01''],
      rawLog 5 ''STOP'' 697 [wordOf ''09'']]"

definition twoWritesLogs :: "StructLog list" where
  \<comment> \<open>slot 1 is loaded (7), written twice (8, then 9) and loaded again (9)\<close>
  "twoWritesLogs =
     [rawLog 0 ''SLOAD'' 1000 [wordOf ''01''],
      rawLog 1 ''PUSH1'' 900 [wordOf ''07''],
      rawLog 3 ''SSTORE'' 897 [wordOf ''08'', wordOf ''01''],
      rawLog 4 ''SSTORE'' 797 [wordOf ''09'', wordOf ''01''],
      rawLog 5 ''SLOAD'' 697 [wordOf ''01''],
      rawLog 6 ''STOP'' 597 [wordOf ''09'']]"

definition bareWord :: "string \<Rightarrow> string" where
  \<comment> \<open>the same word printed without the \<open>0x\<close> prefix\<close>
  "bareWord ds = replicate (64 - length ds) CHR ''0'' @ ds"

definition unprefixedLogs :: "StructLog list" where
  \<comment> \<open>stack words without the \<open>0x\<close> prefix: slot 1 is loaded (0x0a) and written
      (0x0b)\<close>
  "unprefixedLogs =
     [rawLog 0 ''SLOAD'' 1000 [bareWord ''01''],
      rawLog 1 ''PUSH1'' 900 [bareWord ''0a''],
      rawLog 3 ''SSTORE'' 897 [bareWord ''0b'', bareWord ''01''],
      rawLog 4 ''STOP'' 797 []]"

section \<open>Properties of the disassembler\<close>

lemma pcLoop_snd: "map snd (pcLoop cd p i) = [i ..< i + length (pcLoop cd p i)]"
proof (induction cd p i rule: pcLoop.induct)
  case (1 cd p i)
  show ?case
  proof (cases "2 * p < length cd")
    case True
    let ?q = "p + 1 + pushDataLength (opcodeAt cd p)"
    have unf: "pcLoop cd p i = (p, i) # pcLoop cd ?q (i + 1)"
      using True by (subst pcLoop.simps) simp
    have "[i ..< i + Suc (length (pcLoop cd ?q (i + 1)))]
            = i # [Suc i ..< i + Suc (length (pcLoop cd ?q (i + 1)))]"
      by (rule upt_conv_Cons) simp
    with "1.IH"[OF True] unf show ?thesis by simp
  next
    case False
    then have "pcLoop cd p i = []" by (subst pcLoop.simps) simp
    then show ?thesis by simp
  qed
qed

lemma pcLoop_Nil: "pcLoop cd p i = [] \<longleftrightarrow> \<not> 2 * p < length cd"
  by (subst pcLoop.simps) simp

lemma pcLoop_hd: "2 * p < length cd \<Longrightarrow> pcLoop cd p i ! 0 = (p, i)"
  by (subst pcLoop.simps) simp

lemma pcLoop_next:
  "Suc k < length (pcLoop cd p i) \<Longrightarrow>
   fst (pcLoop cd p i ! Suc k)
     = fst (pcLoop cd p i ! k) + 1 + pushDataLength (opcodeAt cd (fst (pcLoop cd p i ! k)))"
proof (induction cd p i arbitrary: k rule: pcLoop.induct)
  case (1 cd p i)
  from "1.prems" have lt: "2 * p < length cd"
    by (metis pcLoop_Nil list.size(3) not_less_zero)
  let ?q = "p + 1 + pushDataLength (opcodeAt cd p)"
  have unf: "pcLoop cd p i = (p, i) # pcLoop cd ?q (i + 1)"
    using lt by (subst pcLoop.simps) simp
  show ?case
  proof (cases k)
    case 0
    with "1.prems" unf have "pcLoop cd ?q (i + 1) \<noteq> []" by auto
    then have "2 * ?q < length cd" by (simp add: pcLoop_Nil)
    then have "pcLoop cd ?q (i + 1) ! 0 = (?q, i + 1)" by (rule pcLoop_hd)
    with 0 unf show ?thesis by simp
  next
    case (Suc k')
    with "1.prems" unf have "Suc k' < length (pcLoop cd ?q (i + 1))" by simp
    from "1.IH"[OF lt this] Suc unf show ?thesis by simp
  qed
qed

lemma pcLoop_within:
  "k < length (pcLoop cd p i) \<Longrightarrow> 2 * fst (pcLoop cd p i ! k) < length cd"
proof (induction cd p i arbitrary: k rule: pcLoop.induct)
  case (1 cd p i)
  from "1.prems" have lt: "2 * p < length cd"
    by (metis pcLoop_Nil list.size(3) not_less_zero)
  let ?q = "p + 1 + pushDataLength (opcodeAt cd p)"
  have unf: "pcLoop cd p i = (p, i) # pcLoop cd ?q (i + 1)"
    using lt by (subst pcLoop.simps) simp
  show ?case
  proof (cases k)
    case 0
    with unf lt show ?thesis by simp
  next
    case (Suc k')
    with "1.prems" unf have "k' < length (pcLoop cd ?q (i + 1))" by simp
    from "1.IH"[OF lt this] Suc unf show ?thesis by simp
  qed
qed

lemma pcLoop_last:
  "pcLoop cd p i \<noteq> [] \<Longrightarrow>
   length cd \<le> 2 * (fst (last (pcLoop cd p i)) + 1
                        + pushDataLength (opcodeAt cd (fst (last (pcLoop cd p i)))))"
proof (induction cd p i rule: pcLoop.induct)
  case (1 cd p i)
  from "1.prems" have lt: "2 * p < length cd" by (simp add: pcLoop_Nil)
  let ?q = "p + 1 + pushDataLength (opcodeAt cd p)"
  have unf: "pcLoop cd p i = (p, i) # pcLoop cd ?q (i + 1)"
    using lt by (subst pcLoop.simps) simp
  show ?case
  proof (cases "pcLoop cd ?q (i + 1) = []")
    case True
    then have "\<not> 2 * ?q < length cd" by (simp add: pcLoop_Nil)
    with True unf show ?thesis by simp
  next
    case False
    from "1.IH"[OF lt False] False unf show ?thesis by simp
  qed
qed

lemma buildPCToInstructionMap_example:
  "buildPCToInstructionMap ''600161020300'' = [(0, 0), (2, 1), (5, 2)]"
  by code_simp

text \<open>
  C5. \<open>buildPCToInstructionMap\<close> walks the bytecode (after an optional \<open>0x\<close>) from
  offset 0: the first entry is at offset 0, each next entry lies 1 byte plus
  \<open>opcode - 0x5f\<close> operand bytes further when the opcode is in 0x60..0x7f and 1 byte
  further otherwise, every entry starts inside the code and the walk ends only when the
  next offset is past the end; the instruction indices are 0, 1, 2, ... in this order.
  For PUSH1 0x01, PUSH2 0x0203, STOP the table is exactly 0 to 0, 2 to 1, 5 to 2.
\<close>

theorem buildPCToInstructionMap_walk:
  "map snd (buildPCToInstructionMap bc) = [0 ..< length (buildPCToInstructionMap bc)]
   \<and> (buildPCToInstructionMap bc = [] \<longleftrightarrow> strip0x bc = [])
   \<and> (buildPCToInstructionMap bc \<noteq> [] \<longrightarrow> fst (buildPCToInstructionMap bc ! 0) = 0)
   \<and> (\<forall>k. Suc k < length (buildPCToInstructionMap bc) \<longrightarrow>
          fst (buildPCToInstructionMap bc ! Suc k)
            = fst (buildPCToInstructionMap bc ! k) + 1
              + pushDataLength (opcodeAt (strip0x bc) (fst (buildPCToInstructionMap bc ! k))))
   \<and> (\<forall>k. k < length (buildPCToInstructionMap bc) \<longrightarrow>
          2 * fst (buildPCToInstructionMap bc ! k) < length (strip0x bc))
   \<and> (buildPCToInstructionMap bc \<noteq> [] \<longrightarrow>
        length (strip0x bc)
          \<le> 2 * (fst (last (buildPCToInstructionMap bc)) + 1
                 + pushDataLength (opcodeAt (strip0x bc) (fst (last (buildPCToInstructionMap bc))))))
   \<and> (\<forall>v. pushDataLength (Some v) = (if 0x60 \<le> v \<and> v \<le> 0x7f then nat (v - 0x5f) else 0))
   \<and> pushDataLength None = 0
   \<and> buildPCToInstructionMap ''600161020300'' = [(0, 0), (2, 1), (5, 2)]"
proof -
  have m: "buildPCToInstructionMap bc = pcLoop (strip0x bc) 0 0"
    by (simp add: buildPCToInstructionMap_def)
  have a: "map snd (pcLoop (strip0x bc) 0 0) = [0 ..< length (pcLoop (strip0x bc) 0 0)]"
    using pcLoop_snd[of "strip0x bc" 0 0] by simp
  have b: "pcLoop (strip0x bc) 0 0 = [] \<longleftrightarrow> strip0x bc = []"
    by (simp add: pcLoop_Nil)
  have c: "pcLoop (strip0x bc) 0 0 \<noteq> [] \<longrightarrow> fst (pcLoop (strip0x bc) 0 0 ! 0) = 0"
    by (simp add: pcLoop_Nil pcLoop_hd)
  have g: "\<forall>v. pushDataLength (Some v) = (if 0x60 \<le> v \<and> v \<le> 0x7f then nat (v - 0x5f) else 0)"
    by (simp add: pushDataLength_def)
  have h: "pushDataLength None = 0" by (simp add: pushDataLength_def)
  show ?thesis
    unfolding m
    using a b c pcLoop_next[of _ "strip0x bc" 0 0] pcLoop_within[of _ "strip0x bc" 0 0]
      pcLoop_last[of "strip0x bc" 0 0] g h buildPCToInstructionMap_example[unfolded buildPCToInstructionMap_def Let_def]
    by (intro conjI allI impI) (simp_all add: buildPCToInstructionMap_def)
qed

theorem buildPCToInstructionMap_walk_witness:
  "Suc 0 < length (buildPCToInstructionMap ''600161020300'')
   \<and> buildPCToInstructionMap ''600161020300'' \<noteq> []
   \<and> fst (buildPCToInstructionMap ''600161020300'' ! Suc 0)
       = fst (buildPCToInstructionMap ''600161020300'' ! 0) + 1
         + pushDataLength (opcodeAt (strip0x ''600161020300'')
             (fst (buildPCToInstructionMap ''600161020300'' ! 0)))
   \<and> 2 * fst (buildPCToInstructionMap ''600161020300'' ! 0) < length (strip0x ''600161020300'')
   \<and> fst (buildPCToInstructionMap ''600161020300'' ! 0) = 0
   \<and> length (strip0x ''600161020300'')
          \<le> 2 * (fst (last (buildPCToInstructionMap ''600161020300'')) + 1
                 + pushDataLength (opcodeAt (strip0x ''600161020300'')
                     (fst (last (buildPCToInstructionMap ''600161020300'')))))"
proof -
  note w = buildPCToInstructionMap_walk[of "''600161020300''"]
  have v: "buildPCToInstructionMap ''600161020300'' = [(0, 0), (2, 1), (5, 2)]"
    using w by blast
  have h1: "Suc 0 < length (buildPCToInstructionMap ''600161020300'')" by (simp add: v)
  have h2: "buildPCToInstructionMap ''600161020300'' \<noteq> []" by (simp add: v)
  have h3: "0 < length (buildPCToInstructionMap ''600161020300'')" by (simp add: v)
  from w h1 h2 h3 show ?thesis by blast
qed

section \<open>Properties of source-map decompression\<close>

lemma sourceMapLoop_length: "length (sourceMapLoop a b c j es) = length es"
  by (induction es arbitrary: a b c j) (simp_all add: Let_def)

lemma numField_empty: "numField prev None = prev" "numField prev (Some []) = prev"
  by (simp_all add: numField_def)

lemma numField_given: "f \<noteq> [] \<Longrightarrow> numField prev (Some f) = parseInt f 0"
  by (simp add: numField_def)

lemma part_empty_entry:
  "part (split [] CHR '':'') 0 = Some []"
  "part (split [] CHR '':'') (Suc n) = None"
  by (simp_all add: part_def)

lemma sourceMapLoop_Cons:
  "sourceMapLoop a b c j (e # es) =
     \<lparr>start = numField a (part (split e CHR '':'') 0),
      entryLength = numField b (part (split e CHR '':'') 1),
      fileIndex = numField c (part (split e CHR '':'') 2)\<rparr>
     # sourceMapLoop (numField a (part (split e CHR '':'') 0))
         (numField b (part (split e CHR '':'') 1))
         (numField c (part (split e CHR '':'') 2))
         (jumpField j (part (split e CHR '':'') 3)) es"
proof (cases "e = []")
  case True
  then show ?thesis
    by (simp add: part_def numField_def jumpField_def)
next
  case False
  then show ?thesis by (simp add: Let_def)
qed

lemma sourceMapLoop_hd:
  "es \<noteq> [] \<Longrightarrow>
   sourceMapLoop a b c j es ! 0 =
     \<lparr>start = numField a (part (split (es ! 0) CHR '':'') 0),
      entryLength = numField b (part (split (es ! 0) CHR '':'') 1),
      fileIndex = numField c (part (split (es ! 0) CHR '':'') 2)\<rparr>"
  by (cases es) (simp_all only: sourceMapLoop_Cons nth_Cons_0, simp)

lemma sourceMapLoop_Suc:
  "Suc k < length es \<Longrightarrow>
   sourceMapLoop a b c j es ! Suc k =
     \<lparr>start = numField (start (sourceMapLoop a b c j es ! k))
                (part (split (es ! Suc k) CHR '':'') 0),
      entryLength = numField (entryLength (sourceMapLoop a b c j es ! k))
                (part (split (es ! Suc k) CHR '':'') 1),
      fileIndex = numField (fileIndex (sourceMapLoop a b c j es ! k))
                (part (split (es ! Suc k) CHR '':'') 2)\<rparr>"
proof (induction es arbitrary: a b c j k)
  case Nil
  then show ?case by simp
next
  case (Cons e es)
  let ?a = "numField a (part (split e CHR '':'') 0)"
  let ?b = "numField b (part (split e CHR '':'') 1)"
  let ?c = "numField c (part (split e CHR '':'') 2)"
  let ?j = "jumpField j (part (split e CHR '':'') 3)"
  have unf: "sourceMapLoop a b c j (e # es) =
               \<lparr>start = ?a, entryLength = ?b, fileIndex = ?c\<rparr> # sourceMapLoop ?a ?b ?c ?j es"
    by (rule sourceMapLoop_Cons)
  show ?case
  proof (cases k)
    case 0
    with Cons.prems have "es \<noteq> []" by auto
    from sourceMapLoop_hd[OF this, of ?a ?b ?c ?j] 0 show ?thesis
      by (simp only: unf nth_Cons_Suc nth_Cons_0) simp
  next
    case (Suc k')
    with Cons.prems have "Suc k' < length es" by simp
    from Cons.IH[OF this, of ?a ?b ?c ?j] Suc show ?thesis
      by (simp only: unf nth_Cons_Suc)
  qed
qed

lemma sourceMapLoop_nth:
  "k < length es \<Longrightarrow>
   sourceMapLoop a b c j es ! k =
     \<lparr>start = numField (if k = 0 then a else start (sourceMapLoop a b c j es ! (k - 1)))
                (part (split (es ! k) CHR '':'') 0),
      entryLength = numField (if k = 0 then b else entryLength (sourceMapLoop a b c j es ! (k - 1)))
                (part (split (es ! k) CHR '':'') 1),
      fileIndex = numField (if k = 0 then c else fileIndex (sourceMapLoop a b c j es ! (k - 1)))
                (part (split (es ! k) CHR '':'') 2)\<rparr>"
proof (cases k)
  case 0
  assume "k < length es"
  with 0 have "es \<noteq> []" by auto
  from sourceMapLoop_hd[OF this] 0 show ?thesis by simp
next
  case (Suc k')
  assume "k < length es"
  with Suc have "Suc k' < length es" by simp
  from sourceMapLoop_Suc[OF this] Suc show ?thesis by simp
qed

lemma sourceMapCache_example:
  "buildSourceMapCache ''10:5:0:-;;20:3:0:-'' =
     [\<lparr>start = Some 10, entryLength = Some 5, fileIndex = Some 0\<rparr>,
      \<lparr>start = Some 10, entryLength = Some 5, fileIndex = Some 0\<rparr>,
      \<lparr>start = Some 20, entryLength = Some 3, fileIndex = Some 0\<rparr>]"
  by code_simp

lemma buildSourceMapCache_nonempty:
  "sm \<noteq> [] \<Longrightarrow>
   buildSourceMapCache sm = sourceMapLoop (Some 0) (Some 0) (Some 0) ''-'' (split sm CHR '';'')"
  by (simp add: buildSourceMapCache_def)

lemma buildSourceMapCache_nth:
  assumes "sm \<noteq> []" and "k < length (split sm CHR '';'')"
  shows "start (buildSourceMapCache sm ! k)
            = numField (if k = 0 then Some 0 else start (buildSourceMapCache sm ! (k - 1)))
                (part (split (split sm CHR '';'' ! k) CHR '':'') 0)"
    and "entryLength (buildSourceMapCache sm ! k)
            = numField (if k = 0 then Some 0 else entryLength (buildSourceMapCache sm ! (k - 1)))
                (part (split (split sm CHR '';'' ! k) CHR '':'') 1)"
    and "fileIndex (buildSourceMapCache sm ! k)
            = numField (if k = 0 then Some 0 else fileIndex (buildSourceMapCache sm ! (k - 1)))
                (part (split (split sm CHR '';'' ! k) CHR '':'') 2)"
proof -
  note n = sourceMapLoop_nth[OF assms(2), of "Some 0" "Some 0" "Some 0" "''-''",
      folded buildSourceMapCache_nonempty[OF assms(1)]]
  show "start (buildSourceMapCache sm ! k)
            = numField (if k = 0 then Some 0 else start (buildSourceMapCache sm ! (k - 1)))
                (part (split (split sm CHR '';'' ! k) CHR '':'') 0)"
    by (subst n) simp
  show "entryLength (buildSourceMapCache sm ! k)
            = numField (if k = 0 then Some 0 else entryLength (buildSourceMapCache sm ! (k - 1)))
                (part (split (split sm CHR '';'' ! k) CHR '':'') 1)"
    by (subst n) simp
  show "fileIndex (buildSourceMapCache sm ! k)
            = numField (if k = 0 then Some 0 else fileIndex (buildSourceMapCache sm ! (k - 1)))
                (part (split (split sm CHR '';'' ! k) CHR '':'') 2)"
    by (subst n) simp
qed

text \<open>
  C6. For a source map that is present (a non-empty string), decompression gives exactly
  one entry per position between the \<open>;\<close> separators, and at every position each of
  start, length and file index is the value of the entry before it (0 at position 0) when
  its field is empty or missing, and the number read from the field otherwise. The string
  \<open>10:5:0:-;;20:3:0:-\<close> gives exactly (10, 5, 0), (10, 5, 0), (20, 3, 0).
\<close>

theorem buildSourceMapCache_inherits:
  "(sm \<noteq> [] \<longrightarrow>
     length (buildSourceMapCache sm) = length (split sm CHR '';'')
     \<and> (\<forall>k. k < length (split sm CHR '';'') \<longrightarrow>
          start (buildSourceMapCache sm ! k)
            = numField (if k = 0 then Some 0 else start (buildSourceMapCache sm ! (k - 1)))
                (part (split (split sm CHR '';'' ! k) CHR '':'') 0)
          \<and> entryLength (buildSourceMapCache sm ! k)
            = numField (if k = 0 then Some 0 else entryLength (buildSourceMapCache sm ! (k - 1)))
                (part (split (split sm CHR '';'' ! k) CHR '':'') 1)
          \<and> fileIndex (buildSourceMapCache sm ! k)
            = numField (if k = 0 then Some 0 else fileIndex (buildSourceMapCache sm ! (k - 1)))
                (part (split (split sm CHR '';'' ! k) CHR '':'') 2)))
   \<and> (\<forall>prev. numField prev None = prev \<and> numField prev (Some []) = prev)
   \<and> (\<forall>prev f. f \<noteq> [] \<longrightarrow> numField prev (Some f) = parseInt f 0)
   \<and> buildSourceMapCache ''10:5:0:-;;20:3:0:-'' =
       [\<lparr>start = Some 10, entryLength = Some 5, fileIndex = Some 0\<rparr>,
        \<lparr>start = Some 10, entryLength = Some 5, fileIndex = Some 0\<rparr>,
        \<lparr>start = Some 20, entryLength = Some 3, fileIndex = Some 0\<rparr>]"
  using buildSourceMapCache_nth sourceMapLoop_length buildSourceMapCache_nonempty
    numField_empty numField_given sourceMapCache_example
  by (intro conjI impI allI) simp_all

theorem buildSourceMapCache_inherits_witness:
  "''10:5:0:-;;20:3:0:-'' \<noteq> []
   \<and> 1 < length (split ''10:5:0:-;;20:3:0:-'' CHR '';'')
   \<and> length (buildSourceMapCache ''10:5:0:-;;20:3:0:-'') = length (split ''10:5:0:-;;20:3:0:-'' CHR '';'')
   \<and> start (buildSourceMapCache ''10:5:0:-;;20:3:0:-'' ! 1)
        = numField (start (buildSourceMapCache ''10:5:0:-;;20:3:0:-'' ! 0))
            (part (split (split ''10:5:0:-;;20:3:0:-'' CHR '';'' ! 1) CHR '':'') 0)
   \<and> ''20'' \<noteq> [] \<and> numField (Some 10) (Some ''20'') = parseInt ''20'' 0"
proof -
  note w = buildSourceMapCache_inherits[of "''10:5:0:-;;20:3:0:-''"]
  have h1: "''10:5:0:-;;20:3:0:-'' \<noteq> []" by simp
  have h2: "1 < length (split ''10:5:0:-;;20:3:0:-'' CHR '';'')" by code_simp
  have h3: "''20'' \<noteq> []" by simp
  from w h1 have a: "length (buildSourceMapCache ''10:5:0:-;;20:3:0:-'')
                       = length (split ''10:5:0:-;;20:3:0:-'' CHR '';'')" by blast
  from w h1 h2 have b: "start (buildSourceMapCache ''10:5:0:-;;20:3:0:-'' ! 1)
        = numField (if (1::nat) = 0 then Some 0 else start (buildSourceMapCache ''10:5:0:-;;20:3:0:-'' ! (1 - 1)))
            (part (split (split ''10:5:0:-;;20:3:0:-'' CHR '';'' ! 1) CHR '':'') 0)" by blast
  from w h3 have c: "numField (Some 10) (Some ''20'') = parseInt ''20'' 0" by blast
  from a b c h1 h2 h3 show ?thesis by simp
qed

text \<open>
  C2, at the input where the code departs from it. In the source map
  \<open>10:5:0:-;x:y:z;20:3:0:-\<close> the entry at position 1 is unparseable. The
  decompression does not stop there: \<open>parseInt\<close> gives \<open>NaN\<close> and throws nothing, so
  the \<open>catch\<close> that would return the entries decoded so far is never entered. The
  result holds three entries, the one at position 1 with \<open>NaN\<close> in all three fields
  and the one after it. With the source map \<open>x:5:0:-\<close> the entry of instruction 0 has
  the start \<open>NaN\<close> and file index 0, and the resolver reports line 1 for it.
\<close>

theorem buildSourceMapCache_unparseable_entry:
  "unparseable (split ''10:5:0:-;x:y:z;20:3:0:-'' CHR '';'' ! 1)
   \<and> buildSourceMapCache ''10:5:0:-;x:y:z;20:3:0:-'' =
       [\<lparr>start = Some 10, entryLength = Some 5, fileIndex = Some 0\<rparr>,
        \<lparr>start = None, entryLength = None, fileIndex = None\<rparr>,
        \<lparr>start = Some 20, entryLength = Some 3, fileIndex = Some 0\<rparr>]
   \<and> cacheGet (buildSourceMapCache ''10:5:0:-;x:y:z;20:3:0:-'') 1
       = Some \<lparr>start = None, entryLength = None, fileIndex = None\<rparr>
   \<and> cacheGet (buildSourceMapCache ''10:5:0:-;x:y:z;20:3:0:-'') 2
       = Some \<lparr>start = Some 20, entryLength = Some 3, fileIndex = Some 0\<rparr>
   \<and> buildSourceMapCache ''x:5:0:-'' = [\<lparr>start = None, entryLength = Some 5, fileIndex = Some 0\<rparr>]
   \<and> getSourceLocation \<lparr>sourceCode = ''contract C {\<newline>  uint x;\<newline>}'', sourceMap = ''x:5:0:-'',
         bytecode = ''00'', pcToInstructionIndex = buildPCToInstructionMap ''00''\<rparr> 0
       = Some \<lparr>line = 1, column = 1, snippet = ''contract C {''\<rparr>"
  by code_simp

section \<open>Properties of the storage value decoder\<close>

text \<open>
  C8. The reference cases of \<open>decodeValue\<close>: 32 zero bytes give \<open>false\<close> for \<open>bool\<close>
  and \<open>0\<close> for \<open>uint256\<close> (with or without the \<open>0x\<close> prefix), and the short-string
  encoding of \<open>hi\<close> (bytes 0x68 0x69 first, last byte 4) gives \<open>hi\<close> in double quotes
  for \<open>string\<close>.
\<close>

theorem decodeValue_reference_cases:
  "decodeValue (replicate 64 CHR ''0'') ''bool'' = ''false''
   \<and> decodeValue (replicate 64 CHR ''0'') ''uint256'' = ''0''
   \<and> decodeValue (''6869'' @ replicate 58 CHR ''0'' @ ''04'') ''string''
        = [CHR 0x22] @ ''hi'' @ [CHR 0x22]
   \<and> decodeValue (''0x'' @ replicate 64 CHR ''0'') ''bool'' = ''false''
   \<and> decodeValue (''0x'' @ replicate 64 CHR ''0'') ''uint256'' = ''0''
   \<and> decodeValue (''0x6869'' @ replicate 58 CHR ''0'' @ ''04'') ''string''
        = [CHR 0x22] @ ''hi'' @ [CHR 0x22]"
  by code_simp

section \<open>Properties of the resolver\<close>

text \<open>
  C1, at the input where the code departs from it. The source map has a single entry,
  of file index 1, and the bytecode has two instructions. For the program counter of
  instruction 1 there is no entry, the neighbour fallback picks the entry of
  instruction 0 and reports line 1 of the source, although no entry of the map has file
  index 0. For the program counter of instruction 0 itself the guard on the file index
  applies and the result is unresolved.
\<close>

theorem getSourceLocation_nearby_generated:
  "map fileIndex (buildSourceMapCache ''0:13:1:-'') = [Some 1]
   \<and> buildPCToInstructionMap ''5b00'' = [(0, 0), (1, 1)]
   \<and> getSourceLocation \<lparr>sourceCode = ''contract C {}'', sourceMap = ''0:13:1:-'',
         bytecode = ''5b00'', pcToInstructionIndex = buildPCToInstructionMap ''5b00''\<rparr> 1
       = Some \<lparr>line = 1, column = 1, snippet = ''contract C {}''\<rparr>
   \<and> getSourceLocation \<lparr>sourceCode = ''contract C {}'', sourceMap = ''0:13:1:-'',
         bytecode = ''5b00'', pcToInstructionIndex = buildPCToInstructionMap ''5b00''\<rparr> 0
       = None"
  by code_simp

section \<open>Properties of the function context\<close>

text \<open>
  C9, at the input where the code departs from it. The function on line 1 opens and
  closes its braces on that line; the brace depth is back at zero on line 1, and the
  code returns line 4, the closing brace of the next function, as the end line.
\<close>

theorem getFunctionContext_single_line_function:
  "getFunctionContext
     ''function one() public pure returns (uint) { return 1; }\<newline>function two() public pure returns (uint) {\<newline>    return 2;\<newline>}'' 1
   = Some \<lparr>functionName = ''one'', startLine = 1, endLine = 4,
        code = ''function one() public pure returns (uint) { return 1; }\<newline>function two() public pure returns (uint) {\<newline>    return 2;\<newline>}'',
        revertLine = 1\<rparr>"
  by code_simp

section \<open>Properties of the trace normaliser\<close>

lemma parseLoop_length: "length (parseLoop logs i g) = length logs"
  by (induction logs arbitrary: i g) simp_all

lemma parseLoop_nth:
  "k < length logs \<Longrightarrow>
   parseLoop logs i g ! k =
     \<lparr>step = i + k,
      pc = log_pc (logs ! k),
      opcode = log_op (logs ! k),
      gas = log_gas (logs ! k),
      gasCost = (if (if k = 0 then g else log_gas (logs ! (k - 1))) > 0
                 then (if k = 0 then g else log_gas (logs ! (k - 1))) - log_gas (logs ! k)
                 else orZero (log_gasCost (logs ! k))),
      stack = (case log_stack (logs ! k) of None \<Rightarrow> [] | Some st \<Rightarrow> st),
      memory = (case log_memory (logs ! k) of None \<Rightarrow> ''0x'' | Some m \<Rightarrow> ''0x'' @ concat m),
      storage = sstoreOf (logs ! k),
      depth = orZero (log_depth (logs ! k))\<rparr>"
proof (induction logs arbitrary: i g k)
  case Nil
  then show ?case by simp
next
  case (Cons l logs)
  show ?case
  proof (cases k)
    case 0
    then show ?thesis by simp
  next
    case (Suc k')
    with Cons.prems have lt: "k' < length logs" by simp
    show ?thesis
    proof (cases k')
      case 0
      with Suc Cons.IH[OF lt, of "i + 1" "log_gas l"] show ?thesis by simp
    next
      case (Suc k'')
      with \<open>k = Suc k'\<close> Cons.IH[OF lt, of "i + 1" "log_gas l"] show ?thesis by simp
    qed
  qed
qed

text \<open>
  C7, as the code has it. \<open>parseTrace\<close> keeps the length and the order of the raw
  trace (step \<open>k\<close> carries index \<open>k\<close> and the program counter, opcode and gas of record
  \<open>k\<close>). The gas cost of step \<open>k\<close> is the gas of step \<open>k - 1\<close> minus the gas of step
  \<open>k\<close> when \<open>k > 0\<close> and the gas of step \<open>k - 1\<close> is positive; for step 0, and for a
  step after one whose gas is not positive, it is the \<open>gasCost\<close> of the record when
  present and 0 otherwise.
\<close>

theorem parseTrace_gas_cost:
  "length (parseTrace logs) = length logs
   \<and> (\<forall>k. k < length logs \<longrightarrow>
        step (parseTrace logs ! k) = k
        \<and> pc (parseTrace logs ! k) = log_pc (logs ! k)
        \<and> opcode (parseTrace logs ! k) = log_op (logs ! k)
        \<and> gas (parseTrace logs ! k) = log_gas (logs ! k)
        \<and> gasCost (parseTrace logs ! k)
            = (if 0 < k \<and> 0 < log_gas (logs ! (k - 1))
               then log_gas (logs ! (k - 1)) - log_gas (logs ! k)
               else orZero (log_gasCost (logs ! k))))
   \<and> orZero None = 0
   \<and> (\<forall>v. orZero (Some v) = v)"
proof (intro conjI allI impI)
  show "length (parseTrace logs) = length logs"
    by (simp add: parseTrace_def parseLoop_length)
  show "orZero None = 0" by (simp add: orZero_def)
  show "orZero (Some v) = v" for v by (simp add: orZero_def)
next
  fix k assume k: "k < length logs"
  note n = parseLoop_nth[OF k, of 0 0, folded parseTrace_def]
  show "step (parseTrace logs ! k) = k" by (subst n) simp
  show "pc (parseTrace logs ! k) = log_pc (logs ! k)" by (subst n) simp
  show "opcode (parseTrace logs ! k) = log_op (logs ! k)" by (subst n) simp
  show "gas (parseTrace logs ! k) = log_gas (logs ! k)" by (subst n) simp
  show "gasCost (parseTrace logs ! k)
            = (if 0 < k \<and> 0 < log_gas (logs ! (k - 1))
               then log_gas (logs ! (k - 1)) - log_gas (logs ! k)
               else orZero (log_gasCost (logs ! k)))"
    by (subst n) simp
qed

theorem parseTrace_gas_cost_witness:
  "(1::nat) < length [\<lparr>log_pc = 0, log_op = ''PUSH1'', log_gas = 100, log_gasCost = Some 3,
                        log_stack = Some [], log_memory = None, log_depth = Some 1\<rparr>,
                      \<lparr>log_pc = 2, log_op = ''POP'', log_gas = 97, log_gasCost = None,
                        log_stack = Some [''0x1''], log_memory = None, log_depth = Some 1\<rparr>]
   \<and> gasCost (parseTrace [\<lparr>log_pc = 0, log_op = ''PUSH1'', log_gas = 100, log_gasCost = Some 3,
                        log_stack = Some [], log_memory = None, log_depth = Some 1\<rparr>,
                      \<lparr>log_pc = 2, log_op = ''POP'', log_gas = 97, log_gasCost = None,
                        log_stack = Some [''0x1''], log_memory = None, log_depth = Some 1\<rparr>] ! 1) = 3
   \<and> gasCost (parseTrace [\<lparr>log_pc = 0, log_op = ''PUSH1'', log_gas = 100, log_gasCost = Some 3,
                        log_stack = Some [], log_memory = None, log_depth = Some 1\<rparr>,
                      \<lparr>log_pc = 2, log_op = ''POP'', log_gas = 97, log_gasCost = None,
                        log_stack = Some [''0x1''], log_memory = None, log_depth = Some 1\<rparr>] ! 0) = 3"
  using parseTrace_gas_cost[of "[\<lparr>log_pc = 0, log_op = ''PUSH1'', log_gas = 100, log_gasCost = Some 3,
                        log_stack = Some [], log_memory = None, log_depth = Some 1\<rparr>,
                      \<lparr>log_pc = 2, log_op = ''POP'', log_gas = 97, log_gasCost = None,
                        log_stack = Some [''0x1''], log_memory = None, log_depth = Some 1\<rparr>]"]
  by (simp add: orZero_def)

text \<open>
  C7, as stated, fails after a step whose remaining gas is 0: the step after it takes
  the record's \<open>gasCost\<close> (here 2), not the difference of the two gas values (here
  -1000).
\<close>

theorem parseTrace_gas_delta_counterexample:
  "gasCost (parseTrace [\<lparr>log_pc = 7, log_op = ''STOP'', log_gas = 0, log_gasCost = Some 0,
                          log_stack = Some [], log_memory = None, log_depth = Some 2\<rparr>,
                        \<lparr>log_pc = 40, log_op = ''POP'', log_gas = 1000, log_gasCost = Some 2,
                          log_stack = Some [''0x1''], log_memory = None, log_depth = Some 1\<rparr>] ! 1) = 2
   \<and> gas (parseTrace [\<lparr>log_pc = 7, log_op = ''STOP'', log_gas = 0, log_gasCost = Some 0,
                          log_stack = Some [], log_memory = None, log_depth = Some 2\<rparr>,
                        \<lparr>log_pc = 40, log_op = ''POP'', log_gas = 1000, log_gasCost = Some 2,
                          log_stack = Some [''0x1''], log_memory = None, log_depth = Some 1\<rparr>] ! 0)
     - gas (parseTrace [\<lparr>log_pc = 7, log_op = ''STOP'', log_gas = 0, log_gasCost = Some 0,
                          log_stack = Some [], log_memory = None, log_depth = Some 2\<rparr>,
                        \<lparr>log_pc = 40, log_op = ''POP'', log_gas = 1000, log_gasCost = Some 2,
                          log_stack = Some [''0x1''], log_memory = None, log_depth = Some 1\<rparr>] ! 1)
     = - 1000"
  by (simp add: parseTrace_def orZero_def)


section \<open>Properties of the revert decoding\<close>

lemma panicReason_unknown:
  "c \<notin> {0x01, 0x11, 0x12, 0x21, 0x22, 0x31, 0x32, 0x41, 0x51} \<Longrightarrow>
   panicReason (Some c) = ''Unknown panic''"
  by (simp add: panicReason_def panicReasons_def)

lemma panicReason_overflow:
  "panicReason (Some 0x11) = ''Arithmetic overflow/underflow (unchecked)''"
  by (simp add: panicReason_def panicReasons_def)

lemma overflow_included:
  "includesStr ''Arithmetic overflow/underflow (unchecked)'' ''overflow''"
  by code_simp

lemma errorMessage_panic:
  assumes "startsWith d ''4e487b71''"
  shows "errorMessage abi 0 rr (Some d)
           = ''Panic('' @ showNumber (parseInt (drop 8 d) 16) @ ''): ''
               @ panicReason (parseInt (drop 8 d) 16)"
proof -
  from assms have "d \<noteq> []" by (auto simp: startsWith_def)
  with assms show ?thesis by (simp add: errorMessage_def Let_def)
qed

lemma selectors_differ:
  assumes "startsWith d ''08c379a0''"
  shows "\<not> startsWith d ''4e487b71''" and "d \<noteq> []"
  using assms by (auto simp: startsWith_def)

lemma errorMessage_error:
  assumes "startsWith d ''08c379a0''"
  shows "errorMessage abi 0 rr (Some d)
           = (case abi (''0x'' @ drop 8 d) of
                None \<Rightarrow> (case rr of None \<Rightarrow> ''Transaction reverted''
                         | Some r \<Rightarrow> if r = [] then ''Transaction reverted'' else r)
              | Some m \<Rightarrow> ''Error: '' @ m)"
  using assms selectors_differ[OF assms]
  by (simp add: errorMessage_def Let_def)

lemma panic_example:
  "errorMessage abi 0 rr (Some (''4e487b71'' @ replicate 62 CHR ''0'' @ ''11''))
     = ''Panic(17): Arithmetic overflow/underflow (unchecked)''"
proof -
  have s: "startsWith (''4e487b71'' @ replicate 62 CHR ''0'' @ ''11'') ''4e487b71''"
    by (simp add: startsWith_def)
  have p: "parseInt (drop 8 (''4e487b71'' @ replicate 62 CHR ''0'' @ ''11'')) 16 = Some 17"
    by code_simp
  have n: "showNumber (Some 17) = ''17''" by code_simp
  show ?thesis
    by (simp only: errorMessage_panic[OF s] p n panicReason_overflow) simp
qed

lemma badInput_selector: "startsWith (''08c379a0'' @ badInputData) ''08c379a0''"
  by (simp add: startsWith_def)

text \<open>
  C4. For a failed transaction (status 0) with return payload \<open>d\<close>: when \<open>d\<close> starts
  with the Panic selector \<open>4e487b71\<close> the message is \<open>Panic(code): reason\<close>, the reason
  taken from the fixed table; code 0x11 gives a reason that contains \<open>overflow\<close>, a code
  outside the table and \<open>NaN\<close> give \<open>Unknown panic\<close>. When \<open>d\<close> starts with the
  \<open>Error(string)\<close> selector \<open>08c379a0\<close> and the library decodes the rest to a string
  \<open>m\<close>, the message is \<open>Error: m\<close> (so for the encoding of \<open>bad input\<close>); when the
  library throws on the rest, nothing is thrown further and the message is the supplied
  revert reason, or \<open>Transaction reverted\<close> when there is none.
\<close>

theorem errorMessage_classifies:
  "(startsWith d ''4e487b71'' \<longrightarrow>
      errorMessage abi 0 rr (Some d)
        = ''Panic('' @ showNumber (parseInt (drop 8 d) 16) @ ''): ''
            @ panicReason (parseInt (drop 8 d) 16))
   \<and> panicReason (Some 0x11) = ''Arithmetic overflow/underflow (unchecked)''
   \<and> includesStr (panicReason (Some 0x11)) ''overflow''
   \<and> (c \<notin> {0x01, 0x11, 0x12, 0x21, 0x22, 0x31, 0x32, 0x41, 0x51} \<longrightarrow>
        panicReason (Some c) = ''Unknown panic'')
   \<and> panicReason None = ''Unknown panic''
   \<and> errorMessage abi 0 rr (Some (''4e487b71'' @ replicate 62 CHR ''0'' @ ''11''))
       = ''Panic(17): Arithmetic overflow/underflow (unchecked)''
   \<and> (startsWith d ''08c379a0'' \<and> abi (''0x'' @ drop 8 d) = Some m \<longrightarrow>
        errorMessage abi 0 rr (Some d) = ''Error: '' @ m)
   \<and> (abi (''0x'' @ badInputData) = Some ''bad input'' \<longrightarrow>
        errorMessage abi 0 rr (Some (''08c379a0'' @ badInputData)) = ''Error: bad input'')
   \<and> (startsWith d ''08c379a0'' \<and> abi (''0x'' @ drop 8 d) = None \<longrightarrow>
        errorMessage abi 0 rr (Some d)
          = (case rr of None \<Rightarrow> ''Transaction reverted''
             | Some r \<Rightarrow> if r = [] then ''Transaction reverted'' else r))"
proof (intro conjI impI)
  show "panicReason None = ''Unknown panic''" by (simp add: panicReason_def)
  show "includesStr (panicReason (Some 0x11)) ''overflow''"
    by (simp only: panicReason_overflow overflow_included)
  show "panicReason (Some 0x11) = ''Arithmetic overflow/underflow (unchecked)''"
    by (rule panicReason_overflow)
  show "errorMessage abi 0 rr (Some (''4e487b71'' @ replicate 62 CHR ''0'' @ ''11''))
       = ''Panic(17): Arithmetic overflow/underflow (unchecked)''"
    by (rule panic_example)
next
  assume "startsWith d ''4e487b71''"
  then show "errorMessage abi 0 rr (Some d)
        = ''Panic('' @ showNumber (parseInt (drop 8 d) 16) @ ''): ''
            @ panicReason (parseInt (drop 8 d) 16)"
    by (rule errorMessage_panic)
next
  assume "c \<notin> {0x01, 0x11, 0x12, 0x21, 0x22, 0x31, 0x32, 0x41, 0x51}"
  then show "panicReason (Some c) = ''Unknown panic''" by (rule panicReason_unknown)
next
  assume "startsWith d ''08c379a0'' \<and> abi (''0x'' @ drop 8 d) = Some m"
  then show "errorMessage abi 0 rr (Some d) = ''Error: '' @ m"
    by (simp add: errorMessage_error)
next
  assume "startsWith d ''08c379a0'' \<and> abi (''0x'' @ drop 8 d) = None"
  then show "errorMessage abi 0 rr (Some d)
          = (case rr of None \<Rightarrow> ''Transaction reverted''
             | Some r \<Rightarrow> if r = [] then ''Transaction reverted'' else r)"
    by (simp add: errorMessage_error)
next
  assume a: "abi (''0x'' @ badInputData) = Some ''bad input''"
  have dr: "drop 8 (''08c379a0'' @ badInputData) = badInputData" by simp
  show "errorMessage abi 0 rr (Some (''08c379a0'' @ badInputData)) = ''Error: bad input''"
    by (simp only: errorMessage_error[OF badInput_selector] dr a option.case) simp
qed

theorem errorMessage_classifies_witness:
  "startsWith (''4e487b71'' @ replicate 62 CHR ''0'' @ ''12'') ''4e487b71''
   \<and> errorMessage (\<lambda>x. if x = ''0x'' @ badInputData then Some ''bad input'' else None) 0 None
        (Some (''4e487b71'' @ replicate 62 CHR ''0'' @ ''12''))
       = ''Panic(18): Division or modulo by zero''
   \<and> (2::int) \<notin> {0x01, 0x11, 0x12, 0x21, 0x22, 0x31, 0x32, 0x41, 0x51}
   \<and> panicReason (Some 2) = ''Unknown panic''
   \<and> startsWith (''08c379a0'' @ badInputData) ''08c379a0''
   \<and> (\<lambda>x. if x = ''0x'' @ badInputData then Some ''bad input'' else None)
        (''0x'' @ drop 8 (''08c379a0'' @ badInputData)) = Some ''bad input''
   \<and> errorMessage (\<lambda>x. if x = ''0x'' @ badInputData then Some ''bad input'' else None) 0 None
        (Some (''08c379a0'' @ badInputData)) = ''Error: bad input''
   \<and> startsWith ''08c379a0ff'' ''08c379a0''
   \<and> (\<lambda>x. if x = ''0x'' @ badInputData then Some ''bad input'' else None)
        (''0x'' @ drop 8 ''08c379a0ff'') = None
   \<and> errorMessage (\<lambda>x. if x = ''0x'' @ badInputData then Some ''bad input'' else None) 0
        (Some ''execution reverted'') (Some ''08c379a0ff'') = ''execution reverted''
   \<and> errorMessage (\<lambda>x. if x = ''0x'' @ badInputData then Some ''bad input'' else None) 0
        None (Some ''08c379a0ff'') = ''Transaction reverted''"
proof -
  let ?abi = "\<lambda>x. if x = ''0x'' @ badInputData then Some ''bad input'' else None"
  have h1: "startsWith (''4e487b71'' @ replicate 62 CHR ''0'' @ ''12'') ''4e487b71''"
    by (simp add: startsWith_def)
  have p: "parseInt (drop 8 (''4e487b71'' @ replicate 62 CHR ''0'' @ ''12'')) 16 = Some 18"
    by code_simp
  have n: "showNumber (Some 18) = ''18''" by code_simp
  have r: "panicReason (Some 18) = ''Division or modulo by zero''"
    by (simp add: panicReason_def panicReasons_def)
  have h2: "(2::int) \<notin> {0x01, 0x11, 0x12, 0x21, 0x22, 0x31, 0x32, 0x41, 0x51}" by simp
  have h3: "startsWith (''08c379a0'' @ badInputData) ''08c379a0''"
    by (simp add: startsWith_def)
  have h4: "?abi (''0x'' @ drop 8 (''08c379a0'' @ badInputData)) = Some ''bad input''" by simp
  have h4': "?abi (''0x'' @ badInputData) = Some ''bad input''" by simp
  have h5: "startsWith ''08c379a0ff'' ''08c379a0''" by (simp add: startsWith_def)
  have h6: "?abi (''0x'' @ drop 8 ''08c379a0ff'') = None"
    by (simp add: badInputData_def)
  note a = errorMessage_classifies[of "''4e487b71'' @ replicate 62 CHR ''0'' @ ''12''" ?abi None 2
      "''bad input''"]
  note b = errorMessage_classifies[of "''08c379a0'' @ badInputData" ?abi None 2 "''bad input''"]
  note c = errorMessage_classifies[of "''08c379a0ff''" ?abi "Some ''execution reverted''" 2
      "''bad input''"]
  note d = errorMessage_classifies[of "''08c379a0ff''" ?abi None 2 "''bad input''"]
  from a h1 have c1: "errorMessage ?abi 0 None (Some (''4e487b71'' @ replicate 62 CHR ''0'' @ ''12''))
       = ''Panic(18): Division or modulo by zero''"
    by (simp only: p n r) simp
  from a h2 have c2: "panicReason (Some 2) = ''Unknown panic''" by blast
  from b h4' have c3: "errorMessage ?abi 0 None (Some (''08c379a0'' @ badInputData)) = ''Error: bad input''"
    by blast
  from c h5 h6 have c4: "errorMessage ?abi 0 (Some ''execution reverted'') (Some ''08c379a0ff'')
       = ''execution reverted''" by simp
  from d h5 h6 have c5: "errorMessage ?abi 0 None (Some ''08c379a0ff'') = ''Transaction reverted''"
    by simp
  from h1 c1 h2 c2 h3 h4 c3 h5 h6 c4 c5 show ?thesis by blast
qed


section \<open>Properties of the storage changes\<close>

lemma top_is_last: "xs \<noteq> [] \<Longrightarrow> xs ! (length xs - Suc 0) = last xs"
  by (simp add: last_conv_nth)

lemma recordRead_hit:
  assumes "sloadAt traces i s v"
  shows "recordRead traces m i = m(s \<mapsto> v)"
proof -
  from assms have a: "opcode (traces ! i) = ''SLOAD''" "stack (traces ! i) \<noteq> []"
      "last (stack (traces ! i)) \<noteq> []" "padHex (last (stack (traces ! i))) 64 = s"
      "i + 1 < length traces" "stack (traces ! (i + 1)) \<noteq> []"
      "last (stack (traces ! (i + 1))) = v" "v \<noteq> []"
    by (simp_all add: sloadAt_def)
  from a(2) have l: "1 \<le> length (stack (traces ! i))" by (cases "stack (traces ! i)") simp_all
  from a(6) have l': "0 < length (stack (traces ! (i + 1)))" by simp
  show ?thesis
    unfolding recordRead_def Let_def
    using a l l' by (simp add: top_is_last)
qed

lemma recordRead_miss:
  assumes "\<forall>v. \<not> sloadAt traces i s v"
  shows "recordRead traces m i s = m s"
proof (cases "recordRead traces m i = m")
  case True
  then show ?thesis by simp
next
  case False
  then have c: "opcode (traces ! i) = ''SLOAD''" "1 \<le> length (stack (traces ! i))"
      "stack (traces ! i) ! (length (stack (traces ! i)) - 1) \<noteq> []"
      "i + 1 < length traces" "0 < length (stack (traces ! (i + 1)))"
      "stack (traces ! (i + 1)) ! (length (stack (traces ! (i + 1))) - 1) \<noteq> []"
    unfolding recordRead_def Let_def by (auto split: if_splits)
  from c(2) have ne: "stack (traces ! i) \<noteq> []" by auto
  from c(5) have ne': "stack (traces ! (i + 1)) \<noteq> []" by auto
  have "sloadAt traces i (padHex (last (stack (traces ! i))) 64)
          (last (stack (traces ! (i + 1))))"
    unfolding sloadAt_def using c ne ne' by (simp add: top_is_last)
  with assms have neq: "padHex (last (stack (traces ! i))) 64 \<noteq> s" by blast
  have "recordRead traces m i
          = m(padHex (last (stack (traces ! i))) 64 \<mapsto> last (stack (traces ! (i + 1))))"
    unfolding recordRead_def Let_def using c ne ne' by (simp add: top_is_last)
  with neq show ?thesis by simp
qed

lemma sloadAt_fun: "sloadAt traces i s v \<Longrightarrow> sloadAt traces i s v' \<Longrightarrow> v = v'"
  by (simp add: sloadAt_def)

lemma reads_Suc:
  "foldl (recordRead traces) Map.empty [0 ..< Suc k]
     = recordRead traces (foldl (recordRead traces) Map.empty [0 ..< k]) k"
  by simp

lemma reads_upto_iff:
  "foldl (recordRead traces) Map.empty [0 ..< k] s = Some v \<longleftrightarrow>
     (\<exists>i<k. sloadAt traces i s v \<and> (\<forall>i' v'. i < i' \<and> i' < k \<longrightarrow> \<not> sloadAt traces i' s v'))"
proof (induction k arbitrary: v)
  case 0
  then show ?case by simp
next
  case (Suc k)
  let ?F = "foldl (recordRead traces) Map.empty [0 ..< k]"
  show ?case
  proof (cases "\<exists>w. sloadAt traces k s w")
    case True
    then obtain w where w: "sloadAt traces k s w" by blast
    have l: "foldl (recordRead traces) Map.empty [0 ..< Suc k] s = Some w"
      by (simp only: reads_Suc recordRead_hit[OF w]) simp
    have "(\<exists>i<Suc k. sloadAt traces i s v
             \<and> (\<forall>i' v'. i < i' \<and> i' < Suc k \<longrightarrow> \<not> sloadAt traces i' s v')) \<longleftrightarrow> v = w"
    proof
      assume "\<exists>i<Suc k. sloadAt traces i s v
             \<and> (\<forall>i' v'. i < i' \<and> i' < Suc k \<longrightarrow> \<not> sloadAt traces i' s v')"
      then obtain i where i: "i < Suc k" "sloadAt traces i s v"
          "\<forall>i' v'. i < i' \<and> i' < Suc k \<longrightarrow> \<not> sloadAt traces i' s v'" by blast
      have "i = k"
      proof (rule ccontr)
        assume "i \<noteq> k"
        with i(1) have "i < k" by simp
        with i(3) w show False by auto
      qed
      with i(2) w show "v = w" by (auto dest: sloadAt_fun)
    next
      assume "v = w"
      with w show "\<exists>i<Suc k. sloadAt traces i s v
             \<and> (\<forall>i' v'. i < i' \<and> i' < Suc k \<longrightarrow> \<not> sloadAt traces i' s v')"
        by (intro exI[of _ k]) auto
    qed
    with l show ?thesis by auto
  next
    case False
    then have nk: "\<forall>w. \<not> sloadAt traces k s w" by blast
    have l: "foldl (recordRead traces) Map.empty [0 ..< Suc k] s = ?F s"
      by (simp only: reads_Suc recordRead_miss[OF nk])
    have "(\<exists>i<Suc k. sloadAt traces i s v
             \<and> (\<forall>i' v'. i < i' \<and> i' < Suc k \<longrightarrow> \<not> sloadAt traces i' s v'))
          \<longleftrightarrow> (\<exists>i<k. sloadAt traces i s v
             \<and> (\<forall>i' v'. i < i' \<and> i' < k \<longrightarrow> \<not> sloadAt traces i' s v'))"
      (is "?L \<longleftrightarrow> ?R")
    proof
      assume ?L
      then obtain i where i: "i < Suc k" "sloadAt traces i s v"
          "\<forall>i' v'. i < i' \<and> i' < Suc k \<longrightarrow> \<not> sloadAt traces i' s v'" by blast
      from i(2) nk have "i \<noteq> k" by auto
      with i(1) have "i < k" by simp
      with i(2,3) show ?R by (intro exI[of _ i]) auto
    next
      assume ?R
      then obtain i where i: "i < k" "sloadAt traces i s v"
          "\<forall>i' v'. i < i' \<and> i' < k \<longrightarrow> \<not> sloadAt traces i' s v'" by blast
      have "\<forall>i' v'. i < i' \<and> i' < Suc k \<longrightarrow> \<not> sloadAt traces i' s v'"
      proof (intro allI impI)
        fix i' v' assume "i < i' \<and> i' < Suc k"
        then have "i' < k \<or> i' = k" by auto
        with i(3) nk \<open>i < i' \<and> i' < Suc k\<close> show "\<not> sloadAt traces i' s v'" by auto
      qed
      with i(1,2) show ?L by (intro exI[of _ i]) auto
    qed
    with l Suc.IH show ?thesis by simp
  qed
qed

lemma sloadAt_bound: "sloadAt traces i s v \<Longrightarrow> i < length traces"
  by (simp add: sloadAt_def)

lemma storageReadsOf_iff:
  "storageReadsOf traces s = Some v \<longleftrightarrow>
     (\<exists>i. sloadAt traces i s v \<and> (\<forall>i' v'. i < i' \<longrightarrow> \<not> sloadAt traces i' s v'))"
  unfolding storageReadsOf_def reads_upto_iff
  by (meson sloadAt_bound)

lemma storageReadsOf_None:
  "(\<forall>i v. \<not> sloadAt traces i s v) \<Longrightarrow> storageReadsOf traces s = None"
  using storageReadsOf_iff[of traces s] by (cases "storageReadsOf traces s") auto

lemma last_sload_exists:
  assumes "sloadAt traces i s v"
  shows "\<exists>i0 v0. i \<le> i0 \<and> sloadAt traces i0 s v0
           \<and> (\<forall>i' v'. i0 < i' \<longrightarrow> \<not> sloadAt traces i' s v')"
proof -
  let ?S = "{k. \<exists>w. sloadAt traces k s w}"
  have fin: "finite ?S"
    by (rule finite_subset[of _ "{..< length traces}"]) (auto dest: sloadAt_bound)
  have ne: "i \<in> ?S" using assms by blast
  define i0 where "i0 = Max ?S"
  have in0: "i0 \<in> ?S" unfolding i0_def using fin ne by (intro Max_in) auto
  then obtain v0 where v0: "sloadAt traces i0 s v0" by blast
  have ge: "i \<le> i0" unfolding i0_def using fin ne by (intro Max_ge)
  have "\<forall>i' v'. i0 < i' \<longrightarrow> \<not> sloadAt traces i' s v'"
  proof (intro allI impI notI)
    fix i' v' assume lt: "i0 < i'" and sl: "sloadAt traces i' s v'"
    then have "i' \<in> ?S" by blast
    with fin have "i' \<le> i0" unfolding i0_def by (intro Max_ge)
    with lt show False by simp
  qed
  with ge v0 show ?thesis by blast
qed

lemma storageReadsOf_same:
  assumes "sloadAt traces i s v"
    and "\<forall>i' v'. i < i' \<and> sloadAt traces i' s v' \<longrightarrow> v' = v"
  shows "storageReadsOf traces s = Some v"
proof -
  from last_sload_exists[OF assms(1)] obtain i0 v0 where
    a: "i \<le> i0" "sloadAt traces i0 s v0" "\<forall>i' v'. i0 < i' \<longrightarrow> \<not> sloadAt traces i' s v'"
    by blast
  have "v0 = v"
  proof (cases "i0 = i")
    case True
    with a(2) assms(1) show ?thesis by (auto dest: sloadAt_fun)
  next
    case False
    with a(1) have "i < i0" by simp
    with assms(2) a(2) show ?thesis by blast
  qed
  with a(2,3) show ?thesis by (subst storageReadsOf_iff) blast
qed

lemma changeOf_Inr:
  assumes "changeOf m t = Inr c"
  shows "\<exists>k v. storage t = Some (k, v) \<and> slot c = k \<and> newValue c = v
           \<and> oldValue c = (case m k of None \<Rightarrow> zeroWord | Some w \<Rightarrow> w)
           \<and> stepIndex c = step t"
  using assms
  by (auto simp: changeOf_def Let_def split: option.splits sum.splits)

lemma mapChanges_mem:
  "mapChanges m ts = Inr cs \<Longrightarrow> t \<in> set ts \<Longrightarrow> \<exists>c \<in> set cs. changeOf m t = Inr c"
  by (induction ts arbitrary: cs) (auto split: sum.splits)

lemma mapChanges_mem_rev:
  "mapChanges m ts = Inr cs \<Longrightarrow> c \<in> set cs \<Longrightarrow> \<exists>t \<in> set ts. changeOf m t = Inr c"
  by (induction ts arbitrary: cs) (auto split: sum.splits)

lemma mapChanges_ok:
  "\<forall>t \<in> set ts. \<exists>c. changeOf m t = Inr c \<Longrightarrow> \<exists>cs. mapChanges m ts = Inr cs"
  by (induction ts) (auto split: sum.splits)

lemma digit_not_ws: "isRadixDigit r c \<Longrightarrow> \<not> isWhiteSpace c"
  by (auto simp: isRadixDigit_def digitVal_def isWhiteSpace_def Let_def
      split: option.splits if_splits)

lemma dropWhile_keep: "xs \<noteq> [] \<Longrightarrow> \<not> P (hd xs) \<Longrightarrow> dropWhile P xs = xs"
  by (cases xs) simp_all

lemma trim_id:
  assumes "x \<noteq> []" "\<not> isWhiteSpace (hd x)" "\<not> isWhiteSpace (last x)"
  shows "trim x = x"
proof -
  have a: "dropWhile isWhiteSpace x = x"
    using assms(1,2) by (rule dropWhile_keep[where P = isWhiteSpace])
  from assms(1) have r: "rev x \<noteq> []" by simp
  from assms(1,3) have "\<not> isWhiteSpace (hd (rev x))" by (simp add: hd_rev)
  with r have "dropWhile isWhiteSpace (rev x) = rev x"
    by (rule dropWhile_keep[where P = isWhiteSpace])
  with a show ?thesis by (simp add: trim_def)
qed

lemma isHexWord_shape:
  assumes "isHexWord x"
  shows "x = ''0x'' @ drop 2 x" and "drop 2 x \<noteq> []" and "list_all (isRadixDigit 16) (drop 2 x)"
proof -
  from assms have "take 2 x = ''0x''"
    by (simp add: isHexWord_def startsWith_def numeral_2_eq_2)
  then have "take 2 x @ drop 2 x = ''0x'' @ drop 2 x" by simp
  then show "x = ''0x'' @ drop 2 x" by (simp only: append_take_drop_id)
  from assms show "drop 2 x \<noteq> []" "list_all (isRadixDigit 16) (drop 2 x)"
    by (simp_all add: isHexWord_def allDigits_def)
qed

lemma isHexWord_BigInt:
  assumes "isHexWord x"
  shows "BigInt x = Inr (int (digitsToNat 16 (drop 2 x)))"
proof -
  note sh = isHexWord_shape[OF assms]
  from sh(1) have ne: "x \<noteq> []" by auto
  from sh(1) have "hd x = CHR ''0''" by (metis append_Cons list.sel(1))
  then have h: "\<not> isWhiteSpace (hd x)" by (simp add: isWhiteSpace_def)
  from sh(1,2) have "last x = last (drop 2 x)" by (metis last_appendR)
  with sh(2) have "last x \<in> set (drop 2 x)" by (metis last_in_set)
  with sh(3) have "isRadixDigit 16 (last x)" by (simp add: list_all_iff)
  then have l: "\<not> isWhiteSpace (last x)" by (rule digit_not_ws)
  have t: "trim x = x" by (rule trim_id[OF ne h l])
  from assms have "startsWith x ''0x''" "allDigits 16 (drop 2 x)"
    by (simp_all add: isHexWord_def)
  with ne show ?thesis by (simp add: BigInt_def t Let_def)
qed

lemma isHexWord_padHex:
  assumes "isHexWord x"
  shows "isHexWord (padHex x n)"
proof -
  note sh = isHexWord_shape[OF assms]
  from assms have "strip0x x = drop 2 x" by (simp add: strip0x_def isHexWord_def)
  then have p: "padHex x n = ''0x'' @ replicate (n - length (drop 2 x)) CHR ''0'' @ drop 2 x"
    by (simp add: padHex_def padStart_def)
  have z: "isRadixDigit 16 CHR ''0''" by (simp add: isRadixDigit_def digitVal_def)
  from sh(2,3) z show ?thesis
    by (auto simp: p isHexWord_def startsWith_def allDigits_def list_all_iff)
qed

lemma isHexWord_zeroWord: "isHexWord zeroWord"
  by (simp add: zeroWord_def isHexWord_def startsWith_def allDigits_def
      isRadixDigit_def digitVal_def list_all_iff)

lemma parseTrace_nth:
  assumes "k < length logs"
  shows "step (parseTrace logs ! k) = k"
    and "stack (parseTrace logs ! k) = (case log_stack (logs ! k) of None \<Rightarrow> [] | Some st \<Rightarrow> st)"
    and "storage (parseTrace logs ! k) = sstoreOf (logs ! k)"
proof -
  note n = parseLoop_nth[OF assms, of 0 0, folded parseTrace_def]
  show "step (parseTrace logs ! k) = k" by (subst n) simp
  show "stack (parseTrace logs ! k) = (case log_stack (logs ! k) of None \<Rightarrow> [] | Some st \<Rightarrow> st)"
    by (subst n) simp
  show "storage (parseTrace logs ! k) = sstoreOf (logs ! k)" by (subst n) simp
qed

lemma parseTrace_length: "length (parseTrace logs) = length logs"
  by (simp add: parseTrace_def parseLoop_length)

lemma hexLogs_stack:
  assumes "hexLogs logs" and "k < length logs" and "x \<in> set (stack (parseTrace logs ! k))"
  shows "isHexWord x"
proof -
  from assms(1,2) have "case log_stack (logs ! k) of None \<Rightarrow> True
                        | Some st \<Rightarrow> list_all isHexWord st"
    by (simp add: hexLogs_def list_all_length)
  with assms(3) show ?thesis
    by (auto simp: parseTrace_nth(2)[OF assms(2)] list_all_iff split: option.splits)
qed

lemma hexLogs_storage:
  assumes "hexLogs logs" and "k < length logs"
    and "storage (parseTrace logs ! k) = Some (key, v)"
  shows "isHexWord v"
proof -
  from assms(1,2) have h: "case log_stack (logs ! k) of None \<Rightarrow> True
                        | Some st \<Rightarrow> list_all isHexWord st"
    by (simp add: hexLogs_def list_all_length)
  from assms(3) have "sstoreOf (logs ! k) = Some (key, v)"
    by (simp add: parseTrace_nth(3)[OF assms(2)])
  then obtain st where st: "log_stack (logs ! k) = Some st" "2 \<le> length st"
      "v = padHex (st ! (length st - 2)) 64"
    by (auto simp: sstoreOf_def split: option.splits if_splits)
  from st(2) have "st ! (length st - 2) \<in> set st" by simp
  with h st(1) have "isHexWord (st ! (length st - 2))" by (simp add: list_all_iff)
  with st(3) show ?thesis by (simp add: isHexWord_padHex)
qed

lemma hexLogs_reads:
  assumes "hexLogs logs" and "storageReadsOf (parseTrace logs) s = Some w"
  shows "isHexWord w"
proof -
  from assms(2) obtain i where "sloadAt (parseTrace logs) i s w"
    by (auto simp: storageReadsOf_iff)
  then have b: "i + 1 < length (parseTrace logs)"
      and ne: "stack (parseTrace logs ! (i + 1)) \<noteq> []"
      and w: "last (stack (parseTrace logs ! (i + 1))) = w"
    by (simp_all add: sloadAt_def)
  from ne w have "w \<in> set (stack (parseTrace logs ! (i + 1)))" by (metis last_in_set)
  with assms(1) b show ?thesis
    by (auto intro: hexLogs_stack simp: parseTrace_length)
qed

lemma hexLogs_changeOf:
  assumes "hexLogs logs" and "k < length logs"
    and "storage (parseTrace logs ! k) = Some (key, v)"
  shows "\<exists>c. changeOf (storageReadsOf (parseTrace logs)) (parseTrace logs ! k) = Inr c"
proof -
  let ?m = "storageReadsOf (parseTrace logs)"
  let ?old = "case ?m key of None \<Rightarrow> zeroWord | Some w \<Rightarrow> w"
  have "isHexWord ?old"
    using hexLogs_reads[OF assms(1)] isHexWord_zeroWord by (auto split: option.splits)
  then have o: "BigInt ?old = Inr (int (digitsToNat 16 (drop 2 ?old)))"
    by (rule isHexWord_BigInt)
  have "isHexWord v" by (rule hexLogs_storage[OF assms])
  then have n: "BigInt v = Inr (int (digitsToNat 16 (drop 2 v)))" by (rule isHexWord_BigInt)
  show ?thesis
    unfolding changeOf_def Let_def by (simp add: assms(3) o n)
qed

lemma hexLogs_extract:
  assumes "hexLogs logs"
  shows "\<exists>cs. extractStorageChanges (parseTrace logs) = Inr cs"
  unfolding extractStorageChanges_def
proof (rule mapChanges_ok, intro ballI)
  fix t assume "t \<in> set (filter (\<lambda>t. storage t \<noteq> None) (parseTrace logs))"
  then have t: "t \<in> set (parseTrace logs)" "storage t \<noteq> None" by simp_all
  from t(1) obtain k where k: "k < length logs" "t = parseTrace logs ! k"
    by (auto simp: in_set_conv_nth parseTrace_length)
  from t(2) obtain key v where "storage t = Some (key, v)" by auto
  with k hexLogs_changeOf[OF assms k(1)] show "\<exists>c. changeOf (storageReadsOf (parseTrace logs)) t = Inr c"
    by simp
qed

lemma extract_change_at:
  assumes "extractStorageChanges traces = Inr cs"
    and "j < length traces" and "storage (traces ! j) = Some (s, w)"
  shows "\<exists>c \<in> set cs. slot c = s \<and> newValue c = w \<and> stepIndex c = step (traces ! j)
           \<and> oldValue c = (case storageReadsOf traces s of None \<Rightarrow> zeroWord | Some v \<Rightarrow> v)"
proof -
  from assms(2,3) have "traces ! j \<in> set (filter (\<lambda>t. storage t \<noteq> None) traces)" by simp
  from mapChanges_mem[OF assms(1)[unfolded extractStorageChanges_def] this]
  obtain c where c: "c \<in> set cs" "changeOf (storageReadsOf traces) (traces ! j) = Inr c"
    by blast
  from changeOf_Inr[OF c(2)] assms(3) c(1) show ?thesis by auto
qed

lemma extract_old_value:
  assumes "extractStorageChanges traces = Inr cs" and "c \<in> set cs"
  shows "oldValue c = (case storageReadsOf traces (slot c) of None \<Rightarrow> zeroWord | Some v \<Rightarrow> v)"
proof -
  from mapChanges_mem_rev[OF assms(1)[unfolded extractStorageChanges_def] assms(2)]
  obtain t where "changeOf (storageReadsOf traces) t = Inr c" by blast
  from changeOf_Inr[OF this] show ?thesis by auto
qed

lemma example_changes:
  "extractStorageChanges (parseTrace exampleLogs) =
     Inr [\<lparr>slot = wordOf ''01'', slotNumber = Some 1, oldValue = wordOf ''07'',
           newValue = wordOf ''09'', oldValueDecimal = ''7'', newValueDecimal = ''9'',
           stepIndex = 9\<rparr>]"
  by code_simp

lemma twoWrites_changes:
  "extractStorageChanges (parseTrace twoWritesLogs) =
     Inr [\<lparr>slot = wordOf ''01'', slotNumber = Some 1, oldValue = wordOf ''09'',
           newValue = wordOf ''08'', oldValueDecimal = ''9'', newValueDecimal = ''8'',
           stepIndex = 2\<rparr>,
          \<lparr>slot = wordOf ''01'', slotNumber = Some 1, oldValue = wordOf ''09'',
           newValue = wordOf ''09'', oldValueDecimal = ''9'', newValueDecimal = ''9'',
           stepIndex = 3\<rparr>]"
  by code_simp

text \<open>
  On a raw trace whose stack entries are all \<open>0x\<close>-prefixed hexadecimal words the
  extraction returns: see \<open>hexLogs_extract\<close>. On other traces a \<open>BigInt\<close> conversion
  may throw: the loaded value is kept as the stack prints it, while keys and written
  values go through \<open>padHex\<close>.
\<close>

lemma unprefixed_throws:
  "extractStorageChanges (parseTrace unprefixedLogs) = Inl SyntaxError"
  by code_simp

lemma single_store_changes:
  "extractStorageChanges (parseTrace [rawLog 0 ''SSTORE'' 100 [wordOf ''09'', wordOf ''01'']]) =
     Inr [\<lparr>slot = wordOf ''01'', slotNumber = Some 1, oldValue = zeroWord,
           newValue = wordOf ''09'', oldValueDecimal = ''0'', newValueDecimal = ''9'',
           stepIndex = 0\<rparr>]"
  by code_simp

text \<open>
  C3, as the code has it. Whenever \<open>extractStorageChanges\<close> returns the changes
  \<open>cs\<close> for a normalised trace: when step \<open>i\<close> is an \<open>SLOAD\<close> of slot \<open>s\<close> with the
  loaded value \<open>v\<close> on the stack top of step \<open>i + 1\<close>, no \<open>SLOAD\<close> of \<open>s\<close> at a
  later step of the trace loads a different value, and step \<open>j\<close> is an \<open>SSTORE\<close> of
  slot \<open>s\<close> with value \<open>w\<close>, a change with slot \<open>s\<close>, old value \<open>v\<close>, new value
  \<open>w\<close> and step index \<open>j\<close> is among \<open>cs\<close>; when no \<open>SLOAD\<close> of \<open>s\<close> is observed,
  the old value is 32 zero bytes. For the trace of the example (step 4 loads slot 1,
  step 5 has 7 on top, step 9 stores 9 to slot 1) the result is the one change with slot
  1, old value 7, new value 9, step 9. Nothing is said of a trace on which a \<open>BigInt\<close>
  conversion throws.
\<close>

theorem extractStorageChanges_old_value:
  assumes "extractStorageChanges (parseTrace logs) = Inr cs"
  shows "(\<forall>i s v j w.
            sloadAt (parseTrace logs) i s v
            \<and> (\<forall>i' v'. i < i' \<and> sloadAt (parseTrace logs) i' s v' \<longrightarrow> v' = v)
            \<and> j < length logs \<and> storage (parseTrace logs ! j) = Some (s, w)
            \<longrightarrow> (\<exists>c \<in> set cs. slot c = s \<and> oldValue c = v \<and> newValue c = w
                                \<and> stepIndex c = j))
    \<and> (\<forall>s j w.
            (\<forall>i v. \<not> sloadAt (parseTrace logs) i s v)
            \<and> j < length logs \<and> storage (parseTrace logs ! j) = Some (s, w)
            \<longrightarrow> (\<exists>c \<in> set cs. slot c = s \<and> oldValue c = zeroWord \<and> newValue c = w
                                \<and> stepIndex c = j))
    \<and> extractStorageChanges (parseTrace exampleLogs) =
        Inr [\<lparr>slot = wordOf ''01'', slotNumber = Some 1, oldValue = wordOf ''07'',
              newValue = wordOf ''09'', oldValueDecimal = ''7'', newValueDecimal = ''9'',
              stepIndex = 9\<rparr>]"
proof (intro conjI allI impI)
  let ?T = "parseTrace logs"
  note cs = assms
  show "\<exists>c \<in> set cs. slot c = s \<and> oldValue c = v \<and> newValue c = w \<and> stepIndex c = j"
    if h: "sloadAt ?T i s v \<and> (\<forall>i' v'. i < i' \<and> sloadAt ?T i' s v' \<longrightarrow> v' = v)
           \<and> j < length logs \<and> storage (?T ! j) = Some (s, w)" for i s v j w
  proof -
    from h have r: "storageReadsOf ?T s = Some v" by (intro storageReadsOf_same) blast+
    from h have j: "j < length ?T" by (simp add: parseTrace_length)
    from h have st: "storage (?T ! j) = Some (s, w)" by blast
    from h have "step (?T ! j) = j" by (simp add: parseTrace_nth(1))
    with extract_change_at[OF cs j st] r show ?thesis by auto
  qed
  show "\<exists>c \<in> set cs. slot c = s \<and> oldValue c = zeroWord \<and> newValue c = w \<and> stepIndex c = j"
    if h: "(\<forall>i v. \<not> sloadAt ?T i s v) \<and> j < length logs \<and> storage (?T ! j) = Some (s, w)"
    for s j w
  proof -
    from h have r: "storageReadsOf ?T s = None" by (intro storageReadsOf_None) blast
    from h have j: "j < length ?T" by (simp add: parseTrace_length)
    from h have st: "storage (?T ! j) = Some (s, w)" by blast
    from h have "step (?T ! j) = j" by (simp add: parseTrace_nth(1))
    with extract_change_at[OF cs j st] r show ?thesis by auto
  qed
  show "extractStorageChanges (parseTrace exampleLogs) =
        Inr [\<lparr>slot = wordOf ''01'', slotNumber = Some 1, oldValue = wordOf ''07'',
              newValue = wordOf ''09'', oldValueDecimal = ''7'', newValueDecimal = ''9'',
              stepIndex = 9\<rparr>]"
    by (rule example_changes)
qed

theorem extractStorageChanges_old_value_witness:
  "extractStorageChanges (parseTrace exampleLogs) =
     Inr [\<lparr>slot = wordOf ''01'', slotNumber = Some 1, oldValue = wordOf ''07'',
           newValue = wordOf ''09'', oldValueDecimal = ''7'', newValueDecimal = ''9'',
           stepIndex = 9\<rparr>]
   \<and> sloadAt (parseTrace exampleLogs) 4 (wordOf ''01'') (wordOf ''07'')
   \<and> map opcode (parseTrace exampleLogs)
       = [''PUSH1'', ''PUSH1'', ''MSTORE'', ''PUSH1'', ''SLOAD'', ''PUSH1'', ''ADD'', ''PUSH1'',
          ''JUMPDEST'', ''SSTORE'', ''STOP'']
   \<and> 9 < length exampleLogs
   \<and> storage (parseTrace exampleLogs ! 9) = Some (wordOf ''01'', wordOf ''09'')
   \<and> (\<exists>c \<in> set [\<lparr>slot = wordOf ''01'', slotNumber = Some 1, oldValue = wordOf ''07'',
           newValue = wordOf ''09'', oldValueDecimal = ''7'', newValueDecimal = ''9'',
           stepIndex = 9\<rparr>].
          slot c = wordOf ''01'' \<and> oldValue c = wordOf ''07''
          \<and> newValue c = wordOf ''09'' \<and> stepIndex c = 9)
   \<and> extractStorageChanges (parseTrace [rawLog 0 ''SSTORE'' 100 [wordOf ''09'', wordOf ''01'']]) =
       Inr [\<lparr>slot = wordOf ''01'', slotNumber = Some 1, oldValue = zeroWord,
             newValue = wordOf ''09'', oldValueDecimal = ''0'', newValueDecimal = ''9'',
             stepIndex = 0\<rparr>]
   \<and> length (parseTrace [rawLog 0 ''SSTORE'' 100 [wordOf ''09'', wordOf ''01'']]) = 1
   \<and> storage (parseTrace [rawLog 0 ''SSTORE'' 100 [wordOf ''09'', wordOf ''01'']] ! 0)
       = Some (wordOf ''01'', wordOf ''09'')
   \<and> (\<exists>c \<in> set [\<lparr>slot = wordOf ''01'', slotNumber = Some 1, oldValue = zeroWord,
             newValue = wordOf ''09'', oldValueDecimal = ''0'', newValueDecimal = ''9'',
             stepIndex = 0\<rparr>].
          slot c = wordOf ''01'' \<and> oldValue c = zeroWord
          \<and> newValue c = wordOf ''09'' \<and> stepIndex c = 0)"
proof -
  let ?T = "parseTrace exampleLogs"
  let ?L = "[rawLog 0 ''SSTORE'' 100 [wordOf ''09'', wordOf ''01'']]"
  let ?U = "parseTrace ?L"
  let ?cs = "[\<lparr>slot = wordOf ''01'', slotNumber = Some 1, oldValue = wordOf ''07'',
           newValue = wordOf ''09'', oldValueDecimal = ''7'', newValueDecimal = ''9'',
           stepIndex = 9\<rparr>]"
  let ?ds = "[\<lparr>slot = wordOf ''01'', slotNumber = Some 1, oldValue = zeroWord,
             newValue = wordOf ''09'', oldValueDecimal = ''0'', newValueDecimal = ''9'',
             stepIndex = 0\<rparr>]"
  have h1: "extractStorageChanges ?T = Inr ?cs" by (rule example_changes)
  have h2: "sloadAt ?T 4 (wordOf ''01'') (wordOf ''07'')" by code_simp
  have ops: "map opcode ?T
       = [''PUSH1'', ''PUSH1'', ''MSTORE'', ''PUSH1'', ''SLOAD'', ''PUSH1'', ''ADD'', ''PUSH1'',
          ''JUMPDEST'', ''SSTORE'', ''STOP'']" by code_simp
  have len: "length ?T = 11" using arg_cong[OF ops, of length] by simp
  have h3: "\<forall>i' v'. 4 < i' \<and> sloadAt ?T i' (wordOf ''01'') v' \<longrightarrow> v' = wordOf ''07''"
  proof (intro allI impI)
    fix i' v' assume a: "4 < i' \<and> sloadAt ?T i' (wordOf ''01'') v'"
    then have b: "i' + 1 < 11" and o: "opcode (?T ! i') = ''SLOAD''"
      by (simp_all add: sloadAt_def len)
    from b len have "opcode (?T ! i') = map opcode ?T ! i'" by simp
    with o have m: "map opcode ?T ! i' = ''SLOAD''" by simp
    from a b have "i' = 5 \<or> i' = 6 \<or> i' = 7 \<or> i' = 8 \<or> i' = 9" by arith
    with m have False unfolding ops by (elim disjE) simp_all
    then show "v' = wordOf ''07''" ..
  qed
  have h4: "9 < length exampleLogs" by (simp add: exampleLogs_def)
  have h5: "storage (?T ! 9) = Some (wordOf ''01'', wordOf ''09'')" by code_simp
  from extractStorageChanges_old_value[OF h1] have
    r: "\<forall>i s v j w.
            sloadAt ?T i s v
            \<and> (\<forall>i' v'. i < i' \<and> sloadAt ?T i' s v' \<longrightarrow> v' = v)
            \<and> j < length exampleLogs \<and> storage (?T ! j) = Some (s, w)
            \<longrightarrow> (\<exists>c \<in> set ?cs. slot c = s \<and> oldValue c = v \<and> newValue c = w
                                \<and> stepIndex c = j)"
    by blast
  from r h2 h3 h4 h5 have c1: "\<exists>c \<in> set ?cs. slot c = wordOf ''01'' \<and> oldValue c = wordOf ''07''
                \<and> newValue c = wordOf ''09'' \<and> stepIndex c = 9"
    by blast
  have g1: "extractStorageChanges ?U = Inr ?ds" by (rule single_store_changes)
  have g2: "length ?U = 1" by (simp add: parseTrace_length)
  have g3: "\<forall>i v. \<not> sloadAt ?U i (wordOf ''01'') v"
    by (simp add: sloadAt_def g2)
  have g4: "storage (?U ! 0) = Some (wordOf ''01'', wordOf ''09'')" by code_simp
  have g5: "0 < length ?L" by simp
  from extractStorageChanges_old_value[OF g1] have
    q: "\<forall>s j w.
            (\<forall>i v. \<not> sloadAt ?U i s v)
            \<and> j < length ?L \<and> storage (?U ! j) = Some (s, w)
            \<longrightarrow> (\<exists>c \<in> set ?ds. slot c = s \<and> oldValue c = zeroWord \<and> newValue c = w
                                \<and> stepIndex c = j)"
    by blast
  from q g3 g4 g5 have c2: "\<exists>c \<in> set ?ds. slot c = wordOf ''01'' \<and> oldValue c = zeroWord
                \<and> newValue c = wordOf ''09'' \<and> stepIndex c = 0"
    by blast
  from h1 h2 ops h4 h5 c1 g1 g2 g4 c2 show ?thesis by blast
qed

text \<open>
  C3, as stated, fails on two traces. When the slot is loaded again after the write
  (step 0 loads slot 1 and step 1 has 7 on top, step 2 stores 9 to slot 1, step 3 loads
  slot 1 again and step 4 has 9 on top), the change emitted for step 2 carries the old
  value 9, not 7. When the stack words carry no \<open>0x\<close> prefix (step 0 loads slot 1 and
  step 1 has 0x0a on top, step 2 stores 0x0b to slot 1), \<open>BigInt\<close> throws on the
  loaded value and no change is emitted.
\<close>

theorem extractStorageChanges_earlier_read_counterexample:
  "sloadAt (parseTrace rereadLogs) 0 (wordOf ''01'') (wordOf ''07'')
   \<and> storage (parseTrace rereadLogs ! 2) = Some (wordOf ''01'', wordOf ''09'')
   \<and> extractStorageChanges (parseTrace rereadLogs) =
       Inr [\<lparr>slot = wordOf ''01'', slotNumber = Some 1, oldValue = wordOf ''09'',
             newValue = wordOf ''09'', oldValueDecimal = ''9'', newValueDecimal = ''9'',
             stepIndex = 2\<rparr>]
   \<and> wordOf ''09'' \<noteq> wordOf ''07''
   \<and> sloadAt (parseTrace unprefixedLogs) 0 (wordOf ''01'') (bareWord ''0a'')
   \<and> map opcode (parseTrace unprefixedLogs) = [''SLOAD'', ''PUSH1'', ''SSTORE'', ''STOP'']
   \<and> storage (parseTrace unprefixedLogs ! 2) = Some (wordOf ''01'', wordOf ''0b'')
   \<and> extractStorageChanges (parseTrace unprefixedLogs) = Inl SyntaxError"
  by code_simp

text \<open>
  C10. The old value of every emitted change is looked up in the read map built from the
  whole trace (32 zero bytes when the slot has no entry); the entry of a slot is the
  value loaded by the last \<open>SLOAD\<close> of that slot whose loaded value is observed,
  wherever it lies in the trace, before or after the write; so all changes of one slot
  carry the same old value. In the example, slot 1 is loaded (7), written twice (8,
  then 9) and loaded again (9): both changes carry the old value 9.
\<close>

theorem extractStorageChanges_reads_whole_trace:
  assumes "extractStorageChanges traces = Inr cs"
  shows "(\<forall>c \<in> set cs.
            oldValue c = (case storageReadsOf traces (slot c) of
                            None \<Rightarrow> zeroWord | Some v \<Rightarrow> v))
    \<and> (\<forall>s v. storageReadsOf traces s = Some v \<longleftrightarrow>
          (\<exists>i. sloadAt traces i s v \<and> (\<forall>i' v'. i < i' \<longrightarrow> \<not> sloadAt traces i' s v')))
    \<and> (\<forall>c \<in> set cs. \<forall>i v.
          sloadAt traces i (slot c) v
          \<and> (\<forall>i' v'. i < i' \<longrightarrow> \<not> sloadAt traces i' (slot c) v')
          \<longrightarrow> oldValue c = v)
    \<and> (\<forall>c \<in> set cs. \<forall>c' \<in> set cs. slot c = slot c' \<longrightarrow> oldValue c = oldValue c')
    \<and> extractStorageChanges (parseTrace twoWritesLogs) =
        Inr [\<lparr>slot = wordOf ''01'', slotNumber = Some 1, oldValue = wordOf ''09'',
              newValue = wordOf ''08'', oldValueDecimal = ''9'', newValueDecimal = ''8'',
              stepIndex = 2\<rparr>,
             \<lparr>slot = wordOf ''01'', slotNumber = Some 1, oldValue = wordOf ''09'',
              newValue = wordOf ''09'', oldValueDecimal = ''9'', newValueDecimal = ''9'',
              stepIndex = 3\<rparr>]"
proof (intro conjI ballI allI impI)
  fix c assume c: "c \<in> set cs"
  show o: "oldValue c = (case storageReadsOf traces (slot c) of
                            None \<Rightarrow> zeroWord | Some v \<Rightarrow> v)"
    by (rule extract_old_value[OF assms c])
  fix i v
  assume "sloadAt traces i (slot c) v
          \<and> (\<forall>i' v'. i < i' \<longrightarrow> \<not> sloadAt traces i' (slot c) v')"
  then have "storageReadsOf traces (slot c) = Some v"
    by (subst storageReadsOf_iff) blast
  with o show "oldValue c = v" by simp
next
  fix s v
  show "storageReadsOf traces s = Some v \<longleftrightarrow>
          (\<exists>i. sloadAt traces i s v \<and> (\<forall>i' v'. i < i' \<longrightarrow> \<not> sloadAt traces i' s v'))"
    by (rule storageReadsOf_iff)
next
  fix c c' assume "c \<in> set cs" "c' \<in> set cs" "slot c = slot c'"
  with extract_old_value[OF assms] show "oldValue c = oldValue c'" by simp
next
  show "extractStorageChanges (parseTrace twoWritesLogs) =
        Inr [\<lparr>slot = wordOf ''01'', slotNumber = Some 1, oldValue = wordOf ''09'',
              newValue = wordOf ''08'', oldValueDecimal = ''9'', newValueDecimal = ''8'',
              stepIndex = 2\<rparr>,
             \<lparr>slot = wordOf ''01'', slotNumber = Some 1, oldValue = wordOf ''09'',
              newValue = wordOf ''09'', oldValueDecimal = ''9'', newValueDecimal = ''9'',
              stepIndex = 3\<rparr>]"
    by (rule twoWrites_changes)
qed

theorem extractStorageChanges_reads_whole_trace_witness:
  "extractStorageChanges (parseTrace twoWritesLogs) =
     Inr [\<lparr>slot = wordOf ''01'', slotNumber = Some 1, oldValue = wordOf ''09'',
           newValue = wordOf ''08'', oldValueDecimal = ''9'', newValueDecimal = ''8'',
           stepIndex = 2\<rparr>,
          \<lparr>slot = wordOf ''01'', slotNumber = Some 1, oldValue = wordOf ''09'',
           newValue = wordOf ''09'', oldValueDecimal = ''9'', newValueDecimal = ''9'',
           stepIndex = 3\<rparr>]
   \<and> sloadAt (parseTrace twoWritesLogs) 4 (wordOf ''01'') (wordOf ''09'')
   \<and> length (parseTrace twoWritesLogs) = 6
   \<and> storageReadsOf (parseTrace twoWritesLogs) (wordOf ''01'') = Some (wordOf ''09'')
   \<and> oldValue \<lparr>slot = wordOf ''01'', slotNumber = Some 1, oldValue = wordOf ''09'',
           newValue = wordOf ''08'', oldValueDecimal = ''9'', newValueDecimal = ''8'',
           stepIndex = 2\<rparr>
       = oldValue \<lparr>slot = wordOf ''01'', slotNumber = Some 1, oldValue = wordOf ''09'',
           newValue = wordOf ''09'', oldValueDecimal = ''9'', newValueDecimal = ''9'',
           stepIndex = 3\<rparr>"
proof -
  let ?T = "parseTrace twoWritesLogs"
  let ?c1 = "\<lparr>slot = wordOf ''01'', slotNumber = Some 1, oldValue = wordOf ''09'',
           newValue = wordOf ''08'', oldValueDecimal = ''9'', newValueDecimal = ''8'',
           stepIndex = 2\<rparr>"
  let ?c2 = "\<lparr>slot = wordOf ''01'', slotNumber = Some 1, oldValue = wordOf ''09'',
           newValue = wordOf ''09'', oldValueDecimal = ''9'', newValueDecimal = ''9'',
           stepIndex = 3\<rparr>"
  have h: "extractStorageChanges ?T = Inr [?c1, ?c2]" by code_simp
  have s: "sloadAt ?T 4 (wordOf ''01'') (wordOf ''09'')" by code_simp
  have len: "length ?T = 6" by (simp add: parseTrace_length twoWritesLogs_def)
  have last: "\<forall>i' v'. 4 < i' \<longrightarrow> \<not> sloadAt ?T i' (wordOf ''01'') v'"
    by (simp add: sloadAt_def len)
  note w = extractStorageChanges_reads_whole_trace[OF h]
  from w s last have r: "storageReadsOf ?T (wordOf ''01'') = Some (wordOf ''09'')" by blast
  from w have "\<forall>c \<in> set [?c1, ?c2]. \<forall>c' \<in> set [?c1, ?c2].
                 slot c = slot c' \<longrightarrow> oldValue c = oldValue c'" by blast
  then have e: "oldValue ?c1 = oldValue ?c2" by simp
  from h s len r e show ?thesis by blast
qed


end
